theory Spec2Isabelle
  imports Main "HOL-Library.Sublist"
begin

section \<open>Python values used by \<open>morphcloud/experimental/__init__.py\<close>\<close>

text \<open>
  Python strings are modelled as \<open>string\<close>; a character outside ASCII stands as its
  UTF-8 bytes (the only one the module needs is U+22EF in \<open>ELLIPSIS\<close>). Exceptions
  are values of \<open>error\<close>; a function that can raise returns \<open>error + 'a\<close>.
\<close>

datatype error =
    Exception string
  | RuntimeError string
  | AssertionError string
  | IndexError string
  | FileNotFoundError string

fun error_message :: "error \<Rightarrow> string" where
  "error_message (Exception m) = m"
| "error_message (RuntimeError m) = m"
| "error_message (AssertionError m) = m"
| "error_message (IndexError m) = m"
| "error_message (FileNotFoundError m) = m"

text \<open>\<open>sep.join(xs)\<close>.\<close>

fun str_join :: "string \<Rightarrow> string list \<Rightarrow> string" where
  "str_join sep [] = []"
| "str_join sep [x] = x"
| "str_join sep (x # y # ys) = x @ sep @ str_join sep (y # ys)"

text \<open>\<open>str(n)\<close> for a Python int: decimal digits, a leading minus sign when negative.\<close>

definition digit_char :: "nat \<Rightarrow> char" where
  "digit_char d = char_of (48 + d)"

function str_nat :: "nat \<Rightarrow> string" where
  "str_nat n = (if n < 10 then [digit_char n] else str_nat (n div 10) @ [digit_char (n mod 10)])"
  by pat_completeness auto
termination
  by (relation "measure (\<lambda>n. n)") auto

declare str_nat.simps [simp del]

definition str_int :: "int \<Rightarrow> string" where
  "str_int i = (if i < 0 then CHR ''-'' # str_nat (nat (- i)) else str_nat (nat i))"

section \<open>Snapshots and content keys\<close>

text \<open>
  \<open>morphcloud.api.Snapshot\<close> (imported as \<open>_Snapshot\<close>): the record the external store
  keeps. The fields the module reads are \<open>id\<close>, \<open>digest\<close> and \<open>metadata\<close>.
\<close>

record api_snapshot =
  snap_id :: string
  snap_digest :: "string option"
  snap_metadata :: "(string \<times> string) list"

text \<open>The wrapper class \<open>Snapshot\<close> of the module: \<open>self.snapshot\<close> is the inner record.\<close>

datatype Snapshot = Snapshot (snapshot: api_snapshot)

text \<open>\<open>self.snapshot.digest or ""\<close>: \<open>None\<close> and the empty string both read as empty.\<close>

definition digest_or_empty :: "string option \<Rightarrow> string" where
  "digest_or_empty d = (case d of None \<Rightarrow> [] | Some s \<Rightarrow> s)"

text \<open>\<open>Snapshot.key_to_digest\<close>: plain concatenation of base digest, base id and key.\<close>

definition key_to_digest :: "Snapshot \<Rightarrow> string \<Rightarrow> string" where
  "key_to_digest self key =
     digest_or_empty (snap_digest (snapshot self)) @ snap_id (snapshot self) @ key"

text \<open>
  The digest \<open>Snapshot.do\<close> computes from the instructions and the \<open>__name__\<close>s of the
  verification functions: \<open>key_to_digest(instructions + ",".join(names))\<close>.
\<close>

definition do_digest :: "Snapshot \<Rightarrow> string \<Rightarrow> string list \<Rightarrow> string" where
  "do_digest self instructions names =
     key_to_digest self (instructions @ str_join '','' names)"

text \<open>A Python identifier used as a function name is non-empty and has no comma.\<close>

definition plain_name :: "string \<Rightarrow> bool" where
  "plain_name n = (n \<noteq> [] \<and> CHR '','' \<notin> set n)"

section \<open>The bounded stream buffer\<close>

text \<open>
  \<open>str.splitlines(keepends=True)\<close>. Python ends a line at LF, CR, CR LF, VT, FF, FS, GS,
  RS, NEL (U+0085), LS (U+2028) and PS (U+2029); the last three stand here as
  their UTF-8 bytes. \<open>linebreak_len s\<close> is the length of the line boundary at the head of
  \<open>s\<close>, 0 when there is none.
\<close>

definition linebreak_len :: "string \<Rightarrow> nat" where
  "linebreak_len s =
     (if take 2 s = [CHR 0x0D, CHR 0x0A] then 2
      else if take 1 s \<in> {[CHR 0x0A], [CHR 0x0B], [CHR 0x0C], [CHR 0x0D],
                           [CHR 0x1C], [CHR 0x1D], [CHR 0x1E]} then 1
      else if take 2 s = [CHR 0xC2, CHR 0x85] then 2
      else if take 3 s = [CHR 0xE2, CHR 0x80, CHR 0xA8] \<or> take 3 s = [CHR 0xE2, CHR 0x80, CHR 0xA9]
      then 3
      else 0)"

function splitlines_from :: "string \<Rightarrow> string \<Rightarrow> string list" where
  "splitlines_from cur [] = (if cur = [] then [] else [cur])"
| "splitlines_from cur (c # cs) =
     (if linebreak_len (c # cs) = 0 then splitlines_from (cur @ [c]) cs
      else (cur @ take (linebreak_len (c # cs)) (c # cs))
             # splitlines_from [] (drop (linebreak_len (c # cs)) (c # cs)))"
  by pat_completeness auto
termination
  by (relation "measure (\<lambda>(cur, s). length s)") auto

definition splitlines :: "string \<Rightarrow> string list" where
  "splitlines s = splitlines_from [] s"

text \<open>
  \<open>rich.text.Text\<close>, as far as the module uses it: the plain text and the style spans
  (start, end, style). \<open>Text.append\<close> drops the control codes BEL, BS, VT, FF and CR from
  the text it adds, and records a span when a style is given; an empty text adds nothing.
  Span offsets count code points, as \<open>len\<close> does: \<open>py_len\<close> counts the bytes that are not
  UTF-8 continuation bytes.
\<close>

record Text =
  plain :: string
  spans :: "(nat \<times> nat \<times> string) list"

definition strip_control_codes :: "string \<Rightarrow> string" where
  "strip_control_codes s =
     filter (\<lambda>c. c \<notin> {CHR 0x07, CHR 0x08, CHR 0x0B, CHR 0x0C, CHR 0x0D}) s"

definition continuation_byte :: "char \<Rightarrow> bool" where
  "continuation_byte c = (128 \<le> (of_char c :: nat) \<and> (of_char c :: nat) < 192)"

definition py_len :: "string \<Rightarrow> nat" where
  "py_len s = length (filter (\<lambda>c. \<not> continuation_byte c) s)"

definition Text_append :: "Text \<Rightarrow> string \<Rightarrow> string option \<Rightarrow> Text" where
  "Text_append t s style =
     (if s = [] then t
      else let sanitized = strip_control_codes s; offset = py_len (plain t) in
        \<lparr>plain = plain t @ sanitized,
         spans = (case style of
                    None \<Rightarrow> spans t
                  | Some st \<Rightarrow> if st = [] then spans t
                               else spans t @ [(offset, offset + py_len sanitized, st)])\<rparr>)"

definition STREAM_MAX_LINES :: int where
  "STREAM_MAX_LINES = 24"

text \<open>\<open>ELLIPSIS\<close>: U+22EF, \<open> [output truncated] \<close>, U+22EF, LF.\<close>

definition ELLIPSIS :: string where
  "ELLIPSIS = [CHR 0xE2, CHR 0x8B, CHR 0xAF] @ '' [output truncated] ''
                @ [CHR 0xE2, CHR 0x8B, CHR 0xAF, CHR 0x0A]"

text \<open>A deque element: the line and its style.\<close>

type_synonym Line = "string \<times> string option"

text \<open>
  Step 2 of \<open>_append_stream_chunk\<close>: \<open>while len(buf) > max_lines: buf.popleft()\<close>.
  \<open>popleft\<close> on an empty deque raises \<open>IndexError\<close> (a negative \<open>max_lines\<close>).
\<close>

fun trim_old_lines :: "int \<Rightarrow> Line list \<Rightarrow> error + Line list" where
  "trim_old_lines max_lines [] =
     (if 0 > max_lines then Inl (IndexError ''pop from an empty deque'') else Inr [])"
| "trim_old_lines max_lines (l # ls) =
     (if int (length (l # ls)) > max_lines then trim_old_lines max_lines ls else Inr (l # ls))"

text \<open>Step 3: wipe the text, add the marker when the buffer is full, then every line.\<close>

definition rebuild_text :: "int \<Rightarrow> Line list \<Rightarrow> Text \<Rightarrow> Text" where
  "rebuild_text max_lines buf text_obj =
     (let t0 = text_obj\<lparr>plain := [], spans := []\<rparr>;
          t1 = (if int (length buf) = max_lines then Text_append t0 ELLIPSIS (Some ''dim'') else t0)
      in foldl (\<lambda>t (ln, st). Text_append t ln st) t1 buf)"

text \<open>\<open>_append_stream_chunk(buf, chunk, text_obj, style=..., max_lines=...)\<close>.\<close>

definition append_stream_chunk ::
  "Line list \<Rightarrow> string \<Rightarrow> Text \<Rightarrow> string option \<Rightarrow> int \<Rightarrow> error + (Line list \<times> Text)" where
  "append_stream_chunk buf chunk text_obj style max_lines =
     (case trim_old_lines max_lines (buf @ map (\<lambda>ln. (ln, style)) (splitlines chunk)) of
        Inl e \<Rightarrow> Inl e
      | Inr buf' \<Rightarrow> Inr (buf', rebuild_text max_lines buf' text_obj))"

text \<open>
  Feeding chunks one after the other through one buffer and one text, as the two
  callbacks of \<open>Snapshot.run\<close> do; the first error stops the feed.
\<close>

fun feed_chunks ::
  "int \<Rightarrow> (string \<times> string option) list \<Rightarrow> Line list \<times> Text \<Rightarrow> error + (Line list \<times> Text)" where
  "feed_chunks max_lines [] st = Inr st"
| "feed_chunks max_lines ((chunk, style) # cs) (buf, text_obj) =
     (case append_stream_chunk buf chunk text_obj style max_lines of
        Inl e \<Rightarrow> Inl e
      | Inr st' \<Rightarrow> feed_chunks max_lines cs st')"

definition empty_Text :: Text where
  "empty_Text = \<lparr>plain = [], spans = []\<rparr>"

text \<open>
  The lines a reader sees in a text: \<open>text.plain.splitlines(keepends=True)\<close>.
\<close>

definition rendered_lines :: "Text \<Rightarrow> string list" where
  "rendered_lines t = splitlines (plain t)"

text \<open>
  A single-line chunk: \<open>splitlines\<close> gives the chunk itself as its one line, the line
  ends with LF, and the chunk is still one line once \<open>Text.append\<close> has dropped its
  control codes. The last condition holds for every chunk that is UTF-8 text; it
  rules out only byte strings in which dropping a control code would join the bytes of
  U+0085, U+2028 or U+2029.
\<close>

definition single_line :: "string \<Rightarrow> bool" where
  "single_line c =
     (splitlines c = [c] \<and> last c = CHR 0x0A
      \<and> splitlines (strip_control_codes c) = [strip_control_codes c])"

section \<open>Remote execution: \<open>ssh_stream\<close> and \<open>instance_exec\<close>\<close>

text \<open>
  \<open>StreamTuple\<close>: the three variants the type alias lists, and the literal that tags each.
  The chunks read with \<open>recv_stderr\<close> carry the tag \<open>stdin\<close>.
\<close>

datatype StreamTuple = Stdout string | Stdin string | ExitCode int

fun channel :: "StreamTuple \<Rightarrow> string" where
  "channel (Stdout txt) = ''stdout''"
| "channel (Stdin txt) = ''stdin''"
| "channel (ExitCode code) = ''exit_code''"

text \<open>
  The \<open>paramiko\<close> channel, a collaborator: the six calls \<open>ssh_stream\<close> makes, each on a
  channel state \<open>'c\<close> and giving the state after it, and what the remote end does during
  \<open>time.sleep(poll)\<close>. A theorem about \<open>ssh_stream\<close> holds for every such channel.
\<close>

record 'c Channel =
  recv_ready :: "'c \<Rightarrow> bool \<times> 'c"
  recv :: "nat \<Rightarrow> 'c \<Rightarrow> string \<times> 'c"
  recv_stderr_ready :: "'c \<Rightarrow> bool \<times> 'c"
  recv_stderr :: "nat \<Rightarrow> 'c \<Rightarrow> string \<times> 'c"
  exit_status_ready :: "'c \<Rightarrow> bool \<times> 'c"
  recv_exit_status :: "'c \<Rightarrow> int \<times> 'c"
  sleep :: "'c \<Rightarrow> 'c"

text \<open>
  \<open>paramiko.SSHClient\<close>: \<open>get_transport()\<close> is \<open>None\<close> or a transport; a transport is the
  function from a command to the channel after \<open>open_session()\<close> and \<open>exec_command\<close>.
\<close>

datatype 'c SSHClient = SSHClient (get_transport: "(string \<Rightarrow> 'c) option")

text \<open>
  The two inner loops of \<open>ssh_stream\<close>; \<open>acc\<close> holds what the generator has yielded so
  far. \<open>decode\<close> is \<open>bytes.decode(encoding, errors="replace")\<close>. A loop that never ends
  has the value \<open>None\<close>.
\<close>

partial_function (option) recv_loop ::
  "'c Channel \<Rightarrow> (string \<Rightarrow> string) \<Rightarrow> nat \<Rightarrow> 'c \<Rightarrow> StreamTuple list
   \<Rightarrow> (StreamTuple list \<times> 'c) option" where
  "recv_loop chan decode chunk_size c acc =
     (case recv_ready chan c of (ready, c1) \<Rightarrow>
        if ready then
          (case recv chan chunk_size c1 of (data, c2) \<Rightarrow>
             recv_loop chan decode chunk_size c2
               (if data \<noteq> [] then acc @ [Stdout (decode data)] else acc))
        else Some (acc, c1))"

partial_function (option) recv_stderr_loop ::
  "'c Channel \<Rightarrow> (string \<Rightarrow> string) \<Rightarrow> nat \<Rightarrow> 'c \<Rightarrow> StreamTuple list
   \<Rightarrow> (StreamTuple list \<times> 'c) option" where
  "recv_stderr_loop chan decode chunk_size c acc =
     (case recv_stderr_ready chan c of (ready, c1) \<Rightarrow>
        if ready then
          (case recv_stderr chan chunk_size c1 of (data, c2) \<Rightarrow>
             recv_stderr_loop chan decode chunk_size c2
               (if data \<noteq> [] then acc @ [Stdin (decode data)] else acc))
        else Some (acc, c1))"

declare recv_loop.simps [code]
declare recv_stderr_loop.simps [code]

text \<open>
  The test that leaves the outer loop:
  \<open>exit_status_ready() and not recv_ready() and not recv_stderr_ready()\<close>, a call made
  only when the ones before it let the conjunction go on.
\<close>

definition exit_test :: "'c Channel \<Rightarrow> 'c \<Rightarrow> bool \<times> 'c" where
  "exit_test chan c =
     (case exit_status_ready chan c of (e, c1) \<Rightarrow>
        if \<not> e then (False, c1)
        else (case recv_ready chan c1 of (r, c2) \<Rightarrow>
          if r then (False, c2)
          else (case recv_stderr_ready chan c2 of (r', c3) \<Rightarrow> (\<not> r', c3))))"

text \<open>The outer \<open>while True\<close> loop.\<close>

partial_function (option) poll_loop ::
  "'c Channel \<Rightarrow> (string \<Rightarrow> string) \<Rightarrow> nat \<Rightarrow> 'c \<Rightarrow> StreamTuple list
   \<Rightarrow> (StreamTuple list \<times> 'c) option" where
  "poll_loop chan decode chunk_size c acc =
     (case recv_loop chan decode chunk_size c acc of
        None \<Rightarrow> None
      | Some (acc1, c1) \<Rightarrow>
         (case recv_stderr_loop chan decode chunk_size c1 acc1 of
            None \<Rightarrow> None
          | Some (acc2, c2) \<Rightarrow>
             (case exit_test chan c2 of (done, c3) \<Rightarrow>
                if done then Some (acc2, c3)
                else poll_loop chan decode chunk_size (sleep chan c3) acc2)))"

declare poll_loop.simps [code]

text \<open>
  \<open>ssh_stream\<close>: everything the generator yields when it is run to its end, and the
  exception that ends it, if one does. \<open>None\<close>: the generator never ends.
\<close>

definition ssh_stream ::
  "'c Channel \<Rightarrow> 'c SSHClient \<Rightarrow> string \<Rightarrow> (string \<Rightarrow> string) \<Rightarrow> nat
   \<Rightarrow> (StreamTuple list \<times> error option) option" where
  "ssh_stream chan ssh command decode chunk_size =
     (case get_transport ssh of
        None \<Rightarrow> Some ([], Some (AssertionError ''SSH transport must be connected''))
      | Some transport \<Rightarrow>
         (case poll_loop chan decode chunk_size (transport command) [] of
            None \<Rightarrow> None
          | Some (acc, c) \<Rightarrow>
             (case recv_exit_status chan c of (code, c') \<Rightarrow>
                Some (acc @ [ExitCode code], None))))"

text \<open>
  The \<open>for msg in ...: match msg\<close> loop of \<open>instance_exec\<close> over the messages of a stream
  and the exception that ends the stream (if any), then the \<open>raise RuntimeError\<close> after
  the loop. The callbacks work on a state \<open>'s\<close> and may raise.
\<close>

fun instance_exec_msgs ::
  "('s \<Rightarrow> string \<Rightarrow> error + 's) \<Rightarrow> ('s \<Rightarrow> string \<Rightarrow> error + 's)
   \<Rightarrow> StreamTuple list \<Rightarrow> error option \<Rightarrow> 's \<Rightarrow> (error + int) \<times> 's" where
  "instance_exec_msgs on_stdout on_stderr [] fin s =
     (case fin of
        Some e \<Rightarrow> (Inl e, s)
      | None \<Rightarrow> (Inl (RuntimeError ''SSH stream did not yield exit code.''), s))"
| "instance_exec_msgs on_stdout on_stderr (Stdout txt # msgs) fin s =
     (case on_stdout s txt of
        Inl e \<Rightarrow> (Inl e, s)
      | Inr s' \<Rightarrow> instance_exec_msgs on_stdout on_stderr msgs fin s')"
| "instance_exec_msgs on_stdout on_stderr (Stdin txt # msgs) fin s =
     (case on_stderr s txt of
        Inl e \<Rightarrow> (Inl e, s)
      | Inr s' \<Rightarrow> instance_exec_msgs on_stdout on_stderr msgs fin s')"
| "instance_exec_msgs on_stdout on_stderr (ExitCode code # msgs) fin s = (Inr code, s)"

text \<open>\<open>morphcloud.api.Instance\<close>: the fields the module reads.\<close>

record Instance =
  inst_id :: string
  inst_snapshot_id :: string
  inst_metadata :: "(string \<times> string) list"

text \<open>
  The remote side of an instance: the channel behaviour, the SSH client \<open>instance.ssh()\<close>
  gives, and the UTF-8 decoding with replacement that \<open>ssh_stream\<close> uses by default.
\<close>

record 'c Remote =
  chan_of :: "'c Channel"
  ssh_of :: "Instance \<Rightarrow> 'c SSHClient"
  decode_utf8 :: "string \<Rightarrow> string"

text \<open>
  \<open>instance_exec\<close>, with the default \<open>chunk_size = 4096\<close>. The generator is run to its end
  before the loop reads it, which gives what Python's lazy reading gives whenever the
  stream ends; for a stream that never ends the value is \<open>None\<close>, also where a callback
  would have raised on the way.
\<close>

definition instance_exec ::
  "'c Remote \<Rightarrow> Instance \<Rightarrow> string \<Rightarrow> ('s \<Rightarrow> string \<Rightarrow> error + 's)
   \<Rightarrow> ('s \<Rightarrow> string \<Rightarrow> error + 's) \<Rightarrow> 's \<Rightarrow> ((error + int) \<times> 's) option" where
  "instance_exec remote inst command on_stdout on_stderr s =
     (case ssh_stream (chan_of remote) (ssh_of remote inst) command (decode_utf8 remote) 4096 of
        None \<Rightarrow> None
      | Some (msgs, fin) \<Rightarrow> Some (instance_exec_msgs on_stdout on_stderr msgs fin s))"

text \<open>
  A channel for concrete runs: buffered output, buffered error output, the exit status
  once it has arrived, whether the channel is closed, and what the remote end still
  sends, one arrival per poll. As in \<open>paramiko\<close>, \<open>exit_status_ready()\<close> holds once the
  status has arrived or the channel is closed, and \<open>recv_exit_status()\<close> gives \<open>-1\<close> when
  no status has arrived: \<open>Closed\<close> is a connection lost before the command's exit status.
\<close>

datatype arrival = Out string | Err string | Exit int | Closed

record chan_state =
  out_buf :: string
  err_buf :: string
  exit_status :: "int option"
  closed :: bool
  pending :: "arrival list"

fun deliver :: "arrival \<Rightarrow> chan_state \<Rightarrow> chan_state" where
  "deliver (Out d) c = c\<lparr>out_buf := out_buf c @ d\<rparr>"
| "deliver (Err d) c = c\<lparr>err_buf := err_buf c @ d\<rparr>"
| "deliver (Exit k) c = c\<lparr>exit_status := Some k\<rparr>"
| "deliver Closed c = c\<lparr>closed := True\<rparr>"

definition scripted_channel :: "chan_state Channel" where
  "scripted_channel =
     \<lparr>recv_ready = (\<lambda>c. (out_buf c \<noteq> [], c)),
      recv = (\<lambda>n c. (take n (out_buf c), c\<lparr>out_buf := drop n (out_buf c)\<rparr>)),
      recv_stderr_ready = (\<lambda>c. (err_buf c \<noteq> [], c)),
      recv_stderr = (\<lambda>n c. (take n (err_buf c), c\<lparr>err_buf := drop n (err_buf c)\<rparr>)),
      exit_status_ready = (\<lambda>c. (closed c \<or> exit_status c \<noteq> None, c)),
      recv_exit_status = (\<lambda>c. (case exit_status c of None \<Rightarrow> - 1 | Some k \<Rightarrow> k, c)),
      sleep = (\<lambda>c. case pending c of [] \<Rightarrow> c | a # rest \<Rightarrow> deliver a (c\<lparr>pending := rest\<rparr>))\<rparr>"

definition scripted_ssh :: "arrival list \<Rightarrow> chan_state SSHClient" where
  "scripted_ssh script =
     SSHClient (Some (\<lambda>command. \<lparr>out_buf = [], err_buf = [], exit_status = None,
                                  closed = False, pending = script\<rparr>))"

text \<open>A message that carries output: tagged \<open>stdout\<close> or \<open>stdin\<close>.\<close>

definition data_message :: "StreamTuple \<Rightarrow> bool" where
  "data_message m = (channel m = ''stdout'' \<or> channel m = ''stdin'')"

section \<open>The snapshot store and \<open>Snapshot.apply\<close>\<close>

text \<open>
  The state outside the module: the snapshots the store holds, in creation order, the
  instances started so far, the next fresh id, and how many times \<open>apply\<close> has called
  an operation function (kept only to be able to say that it was not called).
\<close>

record World =
  store :: "api_snapshot list"
  started :: "Instance list"
  next_id :: nat
  calls :: nat

text \<open>
  Modelled from the spec: \<open>client.snapshots.list(digest=...)\<close> of \<open>morphcloud.api\<close>, which
  is not in src/. Spec 4.2: the snapshots whose digest is the one asked for, in the
  store's order.
\<close>

definition snapshots_list :: "World \<Rightarrow> string \<Rightarrow> api_snapshot list" where
  "snapshots_list w digest = filter (\<lambda>s. snap_digest s = Some digest) (store w)"

text \<open>
  Modelled from the spec: \<open>snapshot.delete()\<close> of \<open>morphcloud.api\<close>, not in src/. Spec 4.2:
  the snapshot is deleted from the store.
\<close>

definition snapshot_delete :: "api_snapshot \<Rightarrow> World \<Rightarrow> World" where
  "snapshot_delete s w = w\<lparr>store := filter (\<lambda>t. snap_id t \<noteq> snap_id s) (store w)\<rparr>"

text \<open>
  Modelled from the spec: \<open>client.instances.start(snapshot_id, metadata, ...)\<close> of
  \<open>morphcloud.api\<close>, not in src/. Spec 6: a new instance of the snapshot, with a fresh id.
\<close>

definition instances_start ::
  "string \<Rightarrow> (string \<times> string) list \<Rightarrow> World \<Rightarrow> Instance \<times> World" where
  "instances_start snapshot_id metadata w =
     (let inst = \<lparr>inst_id = ''morphvm_'' @ str_nat (next_id w),
                  inst_snapshot_id = snapshot_id, inst_metadata = metadata\<rparr>
      in (inst, w\<lparr>started := started w @ [inst], next_id := Suc (next_id w)\<rparr>))"

text \<open>
  Modelled from the spec: \<open>instance.snapshot(digest=...)\<close> of \<open>morphcloud.api\<close>, not in src/.
  Spec 3 and 4.2: finalizing an instance adds one new snapshot, with a fresh id, tagged
  with the digest given.
\<close>

definition instance_snapshot ::
  "Instance \<Rightarrow> string option \<Rightarrow> World \<Rightarrow> api_snapshot \<times> World" where
  "instance_snapshot inst digest w =
     (let snap = \<lparr>snap_id = ''snapshot_'' @ str_nat (next_id w), snap_digest = digest,
                  snap_metadata = []\<rparr>
      in (snap, w\<lparr>store := store w @ [snap], next_id := Suc (next_id w)\<rparr>))"

text \<open>\<open>Snapshot.start\<close> with no arguments: the default metadata is \<open>root = id\<close>.\<close>

definition Snapshot_start :: "Snapshot \<Rightarrow> World \<Rightarrow> Instance \<times> World" where
  "Snapshot_start self w =
     instances_start (snap_id (snapshot self)) [(''root'', snap_id (snapshot self))] w"

text \<open>\<open>invalidate: InvalidateFn | bool\<close>, its truth value, and the \<open>invalidate_fn\<close> of \<open>apply\<close>.\<close>

datatype Invalidate = InvBool bool | InvFn "Snapshot \<Rightarrow> bool"

fun truthy :: "Invalidate \<Rightarrow> bool" where
  "truthy (InvBool b) = b"
| "truthy (InvFn f) = True"

fun invalidate_fn :: "Invalidate \<Rightarrow> Snapshot \<Rightarrow> bool" where
  "invalidate_fn (InvFn f) = f"
| "invalidate_fn (InvBool b) = (\<lambda>_. b)"

text \<open>
  The loop of \<open>apply\<close> over the snapshots found: delete those the predicate names, keep
  the others in \<open>valid\<close>.
\<close>

fun invalidate_snaps ::
  "(Snapshot \<Rightarrow> bool) \<Rightarrow> api_snapshot list \<Rightarrow> World \<Rightarrow> api_snapshot list \<times> World" where
  "invalidate_snaps f [] w = ([], w)"
| "invalidate_snaps f (s # snaps) w =
     (if f (Snapshot s) then invalidate_snaps f snaps (snapshot_delete s w)
      else (case invalidate_snaps f snaps w of (valid, w') \<Rightarrow> (s # valid, w')))"

text \<open>
  \<open>if key:\<close> holds for a key that is neither \<open>None\<close> nor empty. \<open>cache_check\<close> is the block
  under it up to \<open>if snaps:\<close>: the snapshots left after the lookup and the invalidation,
  none when the key is \<open>None\<close> or empty.
\<close>

fun key_given :: "string option \<Rightarrow> bool" where
  "key_given None = False"
| "key_given (Some k) = (k \<noteq> [])"

definition cache_check ::
  "Snapshot \<Rightarrow> string option \<Rightarrow> Invalidate \<Rightarrow> World \<Rightarrow> api_snapshot list \<times> World" where
  "cache_check self key invalidate w =
     (case key of
        None \<Rightarrow> ([], w)
      | Some k \<Rightarrow>
          if k = [] then ([], w)
          else let digest = key_to_digest self k; snaps = snapshots_list w digest in
            if truthy invalidate then invalidate_snaps (invalidate_fn invalidate) snaps w
            else (snaps, w))"

text \<open>
  The three forms of \<open>start_fn\<close>, and an operation function: given the instance it may
  never return (\<open>None\<close>), raise, return nothing or return another instance.
\<close>

datatype StartFn =
    StartNone
  | StartCallable "World \<Rightarrow> Instance \<times> World"
  | StartContext "World \<Rightarrow> Instance \<times> World"

type_synonym Operation = "Instance \<Rightarrow> World \<Rightarrow> ((error + Instance option) \<times> World) option"

text \<open>
  The rest of \<open>apply\<close>, from \<open>if start_fn is None:\<close> on: the instance is obtained, the
  operation function is called, and when it returns the instance (or the one it
  returned) is snapshotted, under the derived digest when a key was given. An exception
  of the function leaves \<open>apply\<close> before \<open>inst.snapshot\<close>. What the instance's context
  manager does on leaving the \<open>with\<close> block belongs to \<open>morphcloud.api\<close> and is not
  modelled.
\<close>

definition apply_miss ::
  "Snapshot \<Rightarrow> Operation \<Rightarrow> string option \<Rightarrow> StartFn \<Rightarrow> World
   \<Rightarrow> ((error + Snapshot) \<times> World) option" where
  "apply_miss self func key start_fn w =
     (case (case start_fn of
              StartNone \<Rightarrow> Snapshot_start self w
            | StartCallable f \<Rightarrow> f w
            | StartContext f \<Rightarrow> f w) of
        (inst, w1) \<Rightarrow>
          (case func inst (w1\<lparr>calls := Suc (calls w1)\<rparr>) of
             None \<Rightarrow> None
           | Some (Inl e, w2) \<Rightarrow> Some (Inl e, w2)
           | Some (Inr res, w2) \<Rightarrow>
               (case instance_snapshot (case res of None \<Rightarrow> inst | Some r \<Rightarrow> r)
                       (case key of
                          None \<Rightarrow> None
                        | Some k \<Rightarrow> if k = [] then None else Some (key_to_digest self k))
                       w2 of
                  (snap, w3) \<Rightarrow> Some (Inr (Snapshot snap), w3))))"

text \<open>\<open>Snapshot.apply\<close>.\<close>

definition Snapshot_apply ::
  "Snapshot \<Rightarrow> Operation \<Rightarrow> string option \<Rightarrow> StartFn \<Rightarrow> Invalidate \<Rightarrow> World
   \<Rightarrow> ((error + Snapshot) \<times> World) option" where
  "Snapshot_apply self func key start_fn invalidate w =
     (case cache_check self key invalidate w of
        (s # snaps, w') \<Rightarrow> Some (Inr (Snapshot s), w')
      | ([], w') \<Rightarrow> apply_miss self func key start_fn w')"

section \<open>\<open>Snapshot.run\<close>\<close>

definition PALETTE :: "(string \<times> string) list" where
  "PALETTE = [(''bg'', ''#2D2D2D''), (''success'', ''#CEFF1A''), (''error'', ''#F23F42''),
              (''accent'', ''#F2777A''), (''running'', ''yellow'')]"

definition colour :: "string \<Rightarrow> string" where
  "colour kind = (case map_of PALETTE kind of None \<Rightarrow> ''white'' | Some c \<Rightarrow> c)"

text \<open>The callbacks \<open>_out\<close> and \<open>_err\<close> of \<open>execute\<close>: one buffer and one text for both.\<close>

definition out_cb :: "Line list \<times> Text \<Rightarrow> string \<Rightarrow> error + (Line list \<times> Text)" where
  "out_cb st c = (case st of (buf, out_text) \<Rightarrow>
     append_stream_chunk buf c out_text None STREAM_MAX_LINES)"

definition err_cb :: "Line list \<times> Text \<Rightarrow> string \<Rightarrow> error + (Line list \<times> Text)" where
  "err_cb st c = (case st of (buf, out_text) \<Rightarrow>
     append_stream_chunk buf c out_text (Some (colour ''error'')) STREAM_MAX_LINES)"

text \<open>The message of the exception \<open>execute\<close> raises: \<open>out_text.plain\<close> stands in it twice.\<close>

definition failure_message :: "string \<Rightarrow> int \<Rightarrow> Text \<Rightarrow> string" where
  "failure_message command exit_code out_text =
     ''Command execution failed: '' @ command @ '' exit='' @ str_int exit_code
       @ '' stdout='' @ plain out_text @ '' stderr='' @ plain out_text"

text \<open>\<open>execute\<close>, the operation function of \<open>run\<close> (the panels it draws are left out).\<close>

definition execute :: "'c Remote \<Rightarrow> string \<Rightarrow> Operation" where
  "execute remote command inst w =
     (case instance_exec remote inst command out_cb err_cb ([], empty_Text) of
        None \<Rightarrow> None
      | Some (Inl e, st) \<Rightarrow> Some (Inl e, w)
      | Some (Inr exit_code, (buf, out_text)) \<Rightarrow>
          if exit_code \<noteq> 0
          then Some (Inl (Exception (failure_message command exit_code out_text)), w)
          else Some (Inr None, w))"

definition Snapshot_run ::
  "'c Remote \<Rightarrow> Snapshot \<Rightarrow> string \<Rightarrow> Invalidate \<Rightarrow> World
   \<Rightarrow> ((error + Snapshot) \<times> World) option" where
  "Snapshot_run remote self command invalidate w =
     Snapshot_apply self (execute remote command) (Some command) StartNone invalidate w"

text \<open>
  The chunk and style a data message gives to the stream buffer: \<open>_out\<close> for \<open>stdout\<close>,
  \<open>_err\<close> for \<open>stdin\<close>.
\<close>

fun styled_chunk :: "StreamTuple \<Rightarrow> string \<times> string option" where
  "styled_chunk (Stdout txt) = (txt, None)"
| "styled_chunk (Stdin txt) = (txt, Some (colour ''error''))"
| "styled_chunk (ExitCode code) = ([], None)"

text \<open>
  For concrete runs: a remote whose every channel follows one script (decoding is the
  identity, the scripts hold ASCII), and the operation \<open>lambda x: x\<close> of \<open>resize\<close>.
\<close>

definition scripted_remote :: "arrival list \<Rightarrow> chan_state Remote" where
  "scripted_remote script =
     \<lparr>chan_of = scripted_channel, ssh_of = (\<lambda>inst. scripted_ssh script), decode_utf8 = id\<rparr>"

definition identity_operation :: Operation where
  "identity_operation inst w = Some (Inr (Some inst), w)"

section \<open>The verifier of \<open>Snapshot.do\<close>\<close>

text \<open>
  A verification function: its \<open>__name__\<close>, and what calling it on the instance does,
  \<open>None\<close> when it returns and \<open>Some msg\<close> when it raises an exception that prints as
  \<open>msg\<close>.
\<close>

record VerifyFn =
  fn_name :: string
  fn_run :: "Instance \<Rightarrow> string option"

text \<open>
  \<open>verify_funcs = [verify] if isinstance(verify, typing.Callable) else verify or []\<close>.
\<close>

datatype VerifyArg = VerifyNone | VerifyOne VerifyFn | VerifyMany "VerifyFn list"

fun verify_funcs_of :: "VerifyArg \<Rightarrow> VerifyFn list" where
  "verify_funcs_of VerifyNone = []"
| "verify_funcs_of (VerifyOne v) = [v]"
| "verify_funcs_of (VerifyMany vs) = vs"

text \<open>
  \<open>VerificationPanel\<close>: the status of each function name (a dict, in insertion order) and
  the border style. The status marks are U+23F3, U+2705 and U+274C, written as UTF-8.
\<close>

record VerificationPanel =
  statuses :: "(string \<times> string) list"
  border_style :: string

fun dict_set :: "string \<Rightarrow> string \<Rightarrow> (string \<times> string) list \<Rightarrow> (string \<times> string) list" where
  "dict_set k v [] = [(k, v)]"
| "dict_set k v ((k', v') # d) = (if k' = k then (k, v) # d else (k', v') # dict_set k v d)"

definition mark_running :: string where
  "mark_running = [CHR 0xE2, CHR 0x8F, CHR 0xB3]"

definition mark_passed :: string where
  "mark_passed = [CHR 0xE2, CHR 0x9C, CHR 0x85]"

definition mark_failed :: string where
  "mark_failed = [CHR 0xE2, CHR 0x9D, CHR 0x8C]"

definition VerificationPanel_init :: "VerifyFn list \<Rightarrow> VerificationPanel" where
  "VerificationPanel_init verify_funcs =
     \<lparr>statuses = foldl (\<lambda>d v. dict_set (fn_name v) (mark_running @ '' running'') d) [] verify_funcs,
      border_style = colour ''running''\<rparr>"

definition VerificationPanel_update ::
  "VerificationPanel \<Rightarrow> string \<Rightarrow> string \<Rightarrow> VerificationPanel" where
  "VerificationPanel_update p name new_status =
     (let st = dict_set name new_status (statuses p) in
      \<lparr>statuses = st,
       border_style =
         (if list_all (\<lambda>(n, s). prefix mark_passed s) st then colour ''success''
          else if list_ex (\<lambda>(n, s). prefix mark_failed s) st then colour ''error''
          else border_style p)\<rparr>)"

text \<open>
  The class \<open>Agent\<close> and the thread-local \<open>_agent_local\<close> are not in src/. \<open>verifier\<close> reads
  \<open>_agent_local.current_agent\<close> (taken here as a parameter, \<open>None\<close> when absent), appends
  the panel to the agent and sets its \<open>_last_verification_errors\<close>: an agent is these
  two attributes.
\<close>

record Agent =
  appended :: "VerificationPanel list"
  last_verification_errors :: "string list"

text \<open>
  The \<open>for func in verify_funcs\<close> loop: \<open>all_ok\<close>, the errors collected, the names of the
  functions called so far (kept to say which checks ran) and the panel.
\<close>

fun verify_loop ::
  "VerifyFn list \<Rightarrow> Instance \<Rightarrow> bool \<times> string list \<times> string list \<times> VerificationPanel
   \<Rightarrow> bool \<times> string list \<times> string list \<times> VerificationPanel" where
  "verify_loop [] inst s = s"
| "verify_loop (func # funcs) inst (all_ok, verification_errors, called, vpanel) =
     (case fn_run func inst of
        None \<Rightarrow>
          verify_loop funcs inst
            (all_ok, verification_errors, called @ [fn_name func],
             VerificationPanel_update vpanel (fn_name func) (mark_passed @ '' passed''))
      | Some error_msg \<Rightarrow>
          verify_loop funcs inst
            (False, verification_errors @ [fn_name func @ '': '' @ error_msg],
             called @ [fn_name func],
             VerificationPanel_update vpanel (fn_name func)
               (mark_failed @ '' failed ('' @ error_msg @ '')'')))"

text \<open>
  \<open>verifier\<close>: the result, the names of the checks it called, and the agent afterwards
  (the panel is appended with the statuses it has at the end).
\<close>

definition verifier ::
  "VerifyFn list \<Rightarrow> Agent option \<Rightarrow> Instance \<Rightarrow> bool \<times> string list \<times> Agent option" where
  "verifier verify_funcs current_agent inst =
     (if verify_funcs = [] then (True, [], current_agent)
      else case current_agent of
        None \<Rightarrow> (True, [], None)
      | Some agent \<Rightarrow>
          (case verify_loop verify_funcs inst (True, [], [], VerificationPanel_init verify_funcs) of
             (all_ok, verification_errors, called, vpanel) \<Rightarrow>
               (all_ok, called,
                Some (agent\<lparr>appended := appended agent @ [vpanel],
                            last_verification_errors := verification_errors\<rparr>))))"

text \<open>For concrete runs: a check that always raises.\<close>

definition failing_check :: VerifyFn where
  "failing_check = \<lparr>fn_name = ''check_port'', fn_run = (\<lambda>inst. Some ''port 80 closed'')\<rparr>"

section \<open>\<open>Snapshot.copy_\<close>: a single file\<close>

text \<open>
  \<open>pathlib\<close> on POSIX: a path is parsed into a root (\<open>/\<close>, \<open>//\<close> or none) and the parts
  between separators, empty parts and \<open>.\<close> dropped. \<open>path_str\<close> is \<open>str(Path(...))\<close> of
  the parsed path, \<open>path_name\<close> is \<open>.name\<close>, \<open>path_parent\<close> is \<open>str(Path(p).parent)\<close>.
\<close>

fun split_sep :: "string \<Rightarrow> string list" where
  "split_sep [] = [[]]"
| "split_sep (c # cs) =
     (if c = CHR ''/'' then [] # split_sep cs
      else (case split_sep cs of [] \<Rightarrow> [[c]] | p # ps \<Rightarrow> (c # p) # ps))"

definition path_root :: "string \<Rightarrow> string" where
  "path_root p =
     (if take 1 p \<noteq> ''/'' then []
      else if take 2 p = ''//'' \<and> take 3 p \<noteq> ''///'' then ''//''
      else ''/'')"

definition path_parts :: "string \<Rightarrow> string list" where
  "path_parts p =
     filter (\<lambda>x. x \<noteq> [] \<and> x \<noteq> ''.'') (split_sep (drop (length (path_root p)) p))"

definition path_str :: "string \<Rightarrow> string list \<Rightarrow> string" where
  "path_str root parts = (if root = [] \<and> parts = [] then ''.'' else root @ str_join ''/'' parts)"

definition path_name :: "string \<Rightarrow> string" where
  "path_name p = (if path_parts p = [] then [] else last (path_parts p))"

definition path_parent :: "string \<Rightarrow> string" where
  "path_parent p = path_str (path_root p) (butlast (path_parts p))"

text \<open>\<open>dest.endswith("/")\<close> and \<open>dest.rstrip("/")\<close>.\<close>

definition endswith_sep :: "string \<Rightarrow> bool" where
  "endswith_sep dest = (dest \<noteq> [] \<and> last dest = CHR ''/'')"

definition rstrip_sep :: "string \<Rightarrow> string" where
  "rstrip_sep dest = rev (dropWhile (\<lambda>c. c = CHR ''/'') (rev dest))"

text \<open>
  The remote file system seen through SFTP, a collaborator: a directory or a file (its
  content and, once \<open>chmod\<close> has set them, its permission bits) at each path that exists.
  \<open>stat\<close> of a path that is not there raises \<open>FileNotFoundError\<close>; \<open>mkdir\<close>, \<open>put\<close> and
  \<open>chmod\<close> are taken to succeed.
\<close>

datatype rnode = RDir | RFile string "nat option"

type_synonym remote_fs = "string \<Rightarrow> rnode option"

definition sftp_mkdir :: "string \<Rightarrow> remote_fs \<Rightarrow> remote_fs" where
  "sftp_mkdir p fs = fs(p \<mapsto> RDir)"

definition sftp_put :: "string \<Rightarrow> string \<Rightarrow> remote_fs \<Rightarrow> remote_fs" where
  "sftp_put content p fs = fs(p \<mapsto> RFile content None)"

definition sftp_chmod :: "string \<Rightarrow> nat \<Rightarrow> remote_fs \<Rightarrow> remote_fs" where
  "sftp_chmod p mode fs =
     (case fs p of Some (RFile content m) \<Rightarrow> fs(p \<mapsto> RFile content (Some mode)) | _ \<Rightarrow> fs)"

text \<open>A path is in normal form when \<open>str(Path(p))\<close> is \<open>p\<close> itself.\<close>

definition path_normal :: "string \<Rightarrow> bool" where
  "path_normal p = (path_str (path_root p) (path_parts p) = p)"

text \<open>What a parsed part is: not empty, not \<open>.\<close>, without a separator.\<close>

definition part_ok :: "string \<Rightarrow> bool" where
  "part_ok x = (x \<noteq> [] \<and> x \<noteq> ''.'' \<and> CHR ''/'' \<notin> set x)"

text \<open>
  \<open>ensure_remote_dir\<close>: when the path is not there, first its parent (unless the parent
  is the path itself or \<open>/\<close>), then \<open>mkdir\<close>. It ends because a parent has fewer parts, or
  as many and is in normal form where the path is not.
\<close>

function ensure_remote_dir :: "string \<Rightarrow> remote_fs \<Rightarrow> remote_fs" where
  "ensure_remote_dir remote_path fs =
     (case fs remote_path of
        Some node \<Rightarrow> fs
      | None \<Rightarrow>
          sftp_mkdir remote_path
            (if path_parent remote_path \<noteq> remote_path \<and> path_parent remote_path \<noteq> ''/''
             then ensure_remote_dir (path_parent remote_path) fs
             else fs))"
  by pat_completeness auto

text \<open>
  \<open>copy_file\<close>: the remote directory is made sure of, the file is put, and its
  permission bits are set (a failure of \<open>chmod\<close> is swallowed by the code).
\<close>

definition copy_file :: "string \<Rightarrow> nat \<Rightarrow> string \<Rightarrow> remote_fs \<Rightarrow> remote_fs" where
  "copy_file content mode remote_file fs =
     sftp_chmod remote_file mode
       (sftp_put content remote_file
          (if path_parent remote_file \<noteq> remote_file
           then ensure_remote_dir (path_parent remote_file) fs
           else fs))"

text \<open>
  The local source of a single-file copy: missing, or a file with its content and
  \<open>st_mode\<close>. (The branch of \<open>execute_copy\<close> for a source directory is not modelled.)
\<close>

datatype local_path = Missing | LocalFile string nat

text \<open>The \<open>remote_file\<close> that the main copy logic computes for a source file.\<close>

definition remote_file_for :: "string \<Rightarrow> string \<Rightarrow> remote_fs \<Rightarrow> string" where
  "remote_file_for src dest fs =
     (if endswith_sep dest then rstrip_sep dest @ ''/'' @ path_name src
      else (case fs dest of
              Some RDir \<Rightarrow> dest @ ''/'' @ path_name src
            | Some (RFile content mode) \<Rightarrow> dest
            | None \<Rightarrow> dest))"

text \<open>\<open>execute_copy\<close> for a source that is a file or missing (the progress panel left out).\<close>

definition execute_copy_file ::
  "local_path \<Rightarrow> string \<Rightarrow> string \<Rightarrow> remote_fs \<Rightarrow> error + remote_fs" where
  "execute_copy_file src_path src dest fs =
     (case src_path of
        Missing \<Rightarrow> Inl (FileNotFoundError (''Source path does not exist: '' @ src))
      | LocalFile content mode \<Rightarrow> Inr (copy_file content mode (remote_file_for src dest fs) fs))"

section \<open>Content keys: lemmas\<close>

lemma takeWhile_until_comma:
  "CHR '','' \<notin> set a \<Longrightarrow> takeWhile (\<lambda>c. c \<noteq> CHR '','') (a @ CHR '','' # r) = a"
  by (induction a) auto

lemma takeWhile_no_comma:
  "CHR '','' \<notin> set a \<Longrightarrow> takeWhile (\<lambda>c. c \<noteq> CHR '','') a = a"
  by (induction a) auto

lemma str_join_Cons:
  "str_join '','' (x # xs) = (if xs = [] then x else x @ CHR '','' # str_join '','' xs)"
  by (cases xs) auto

lemma str_join_head:
  assumes "CHR '','' \<notin> set x"
  shows "takeWhile (\<lambda>c. c \<noteq> CHR '','') (str_join '','' (x # xs)) = x"
  using assms by (simp add: str_join_Cons takeWhile_until_comma takeWhile_no_comma)

lemma str_join_nonempty:
  "list_all plain_name (x # xs) \<Longrightarrow> str_join '','' (x # xs) \<noteq> []"
  by (cases xs) (auto simp: plain_name_def)

lemma str_join_inj:
  "list_all plain_name xs \<Longrightarrow> list_all plain_name ys \<Longrightarrow>
   str_join '','' xs = str_join '','' ys \<Longrightarrow> xs = ys"
proof (induction xs arbitrary: ys)
  case Nil
  show ?case
  proof (cases ys)
    case Nil
    then show ?thesis by simp
  next
    case (Cons y ys')
    with Nil.prems str_join_nonempty [of y ys'] show ?thesis by simp
  qed
next
  case (Cons x xs)
  show ?case
  proof (cases ys)
    case Nil
    with Cons.prems str_join_nonempty [of x xs] show ?thesis by simp
  next
    case ys: (Cons y ys')
    from Cons.prems have nx: "CHR '','' \<notin> set x" and ny: "CHR '','' \<notin> set y"
      by (auto simp: ys plain_name_def)
    have "takeWhile (\<lambda>c. c \<noteq> CHR '','') (str_join '','' (x # xs)) =
          takeWhile (\<lambda>c. c \<noteq> CHR '','') (str_join '','' (y # ys'))"
      using Cons.prems(3) ys by simp
    then have xy: "x = y"
      by (simp only: str_join_head [OF nx] str_join_head [OF ny])
    have tails: "xs = ys'"
    proof (cases "xs = []")
      case True
      show ?thesis
      proof (cases "ys' = []")
        case True
        with \<open>xs = []\<close> show ?thesis by simp
      next
        case False
        with True Cons.prems(3) ys xy show ?thesis
          by (simp add: str_join_Cons)
      qed
    next
      case False
      show ?thesis
      proof (cases "ys' = []")
        case True
        with False Cons.prems(3) ys xy show ?thesis
          by (simp add: str_join_Cons)
      next
        case ne: False
        from False ne Cons.prems(3) ys xy
        have "str_join '','' xs = str_join '','' ys'"
          by (simp add: str_join_Cons)
        moreover from Cons.prems have "list_all plain_name xs" "list_all plain_name ys'"
          by (auto simp: ys)
        ultimately show ?thesis by (rule Cons.IH [rotated 2])
      qed
    qed
    with xy ys show ?thesis by simp
  qed
qed


lemma key_to_digest_same_base:
  "key_to_digest self k1 = key_to_digest self k2 \<longleftrightarrow> k1 = k2"
  by (simp add: key_to_digest_def)

lemma key_to_digest_same_id:
  "key_to_digest (Snapshot (s\<lparr>snap_digest := d1\<rparr>)) k = key_to_digest (Snapshot (s\<lparr>snap_digest := d2\<rparr>)) k
   \<longleftrightarrow> digest_or_empty d1 = digest_or_empty d2"
  by (simp add: key_to_digest_def)

lemma do_digest_same_instructions:
  assumes "list_all plain_name ns1" and "list_all plain_name ns2"
  shows "do_digest self ins ns1 = do_digest self ins ns2 \<longleftrightarrow> ns1 = ns2"
  using str_join_inj [OF assms] by (auto simp: do_digest_def key_to_digest_def)

section \<open>C2: when two operations get the same content key\<close>

lemma key_to_digest_same_digest_and_key:
  "key_to_digest (Snapshot (s\<lparr>snap_id := i1\<rparr>)) k = key_to_digest (Snapshot (s\<lparr>snap_id := i2\<rparr>)) k
   \<longleftrightarrow> i1 = i2"
  by (simp add: key_to_digest_def)

lemma key_to_digest_same_lengths:
  assumes "length (digest_or_empty (snap_digest (snapshot b1)))
           = length (digest_or_empty (snap_digest (snapshot b2)))"
    and "length (snap_id (snapshot b1)) = length (snap_id (snapshot b2))"
  shows "key_to_digest b1 k1 = key_to_digest b2 k2
         \<longleftrightarrow> digest_or_empty (snap_digest (snapshot b1)) = digest_or_empty (snap_digest (snapshot b2))
             \<and> snap_id (snapshot b1) = snap_id (snapshot b2) \<and> k1 = k2"
  using assms by (simp add: key_to_digest_def)

text \<open>
  C2, as stated, fails: the key is the plain concatenation of base digest, base id and
  descriptor, so two different bases can give one key (digest \<open>a\<close> with id \<open>bc\<close>, and
  digest \<open>ab\<close> with id \<open>c\<close>), and within one base the instructions and the
  verification names of \<open>do\<close> run together (\<open>fix\<close> with the check \<open>check\<close>, and
  \<open>fixcheck\<close> with no check).
\<close>

theorem content_key_collision:
  "key_to_digest (Snapshot \<lparr>snap_id = ''bc'', snap_digest = Some ''a'', snap_metadata = []\<rparr>) ''x''
     = key_to_digest (Snapshot \<lparr>snap_id = ''c'', snap_digest = Some ''ab'', snap_metadata = []\<rparr>) ''x''
   \<and> Snapshot \<lparr>snap_id = ''bc'', snap_digest = Some ''a'', snap_metadata = []\<rparr>
     \<noteq> Snapshot \<lparr>snap_id = ''c'', snap_digest = Some ''ab'', snap_metadata = []\<rparr>
   \<and> do_digest (Snapshot \<lparr>snap_id = ''c'', snap_digest = Some ''ab'', snap_metadata = []\<rparr>)
        ''fix'' [''check'']
     = do_digest (Snapshot \<lparr>snap_id = ''c'', snap_digest = Some ''ab'', snap_metadata = []\<rparr>)
        ''fixcheck'' []"
  by (simp add: key_to_digest_def do_digest_def digest_or_empty_def)

text \<open>
  C2, amended: the key is a function of base digest, base id and descriptor, so equal
  inputs give equal keys. Changing one input alone changes the key: on one base two
  descriptors give the same key iff they are equal; with the base id and the
  descriptor fixed, two base digests give the same key iff they are equal (a missing
  digest reading as the empty one); with the base digest and the descriptor fixed, two
  base ids give the same key iff they are equal; with the base and the
  instructions fixed, two lists of verification function names (non-empty, without a
  comma) give the same key iff the lists are equal. And for two bases whose digests have
  the same length and whose ids have the same length, two operations have the same key
  iff they have the same base digest, the same base id and the same descriptor.
\<close>

theorem content_key_sensitivity:
  "(key_to_digest self k1 = key_to_digest self k2 \<longleftrightarrow> k1 = k2)
   \<and> (key_to_digest (Snapshot (s\<lparr>snap_digest := d1\<rparr>)) k
        = key_to_digest (Snapshot (s\<lparr>snap_digest := d2\<rparr>)) k
      \<longleftrightarrow> digest_or_empty d1 = digest_or_empty d2)
   \<and> (key_to_digest (Snapshot (s\<lparr>snap_id := i1\<rparr>)) k
        = key_to_digest (Snapshot (s\<lparr>snap_id := i2\<rparr>)) k
      \<longleftrightarrow> i1 = i2)
   \<and> (list_all plain_name ns1 \<and> list_all plain_name ns2 \<longrightarrow>
        (do_digest self ins ns1 = do_digest self ins ns2 \<longleftrightarrow> ns1 = ns2))
   \<and> (length (digest_or_empty (snap_digest (snapshot b1)))
          = length (digest_or_empty (snap_digest (snapshot b2)))
        \<and> length (snap_id (snapshot b1)) = length (snap_id (snapshot b2)) \<longrightarrow>
        (key_to_digest b1 k1 = key_to_digest b2 k2
         \<longleftrightarrow> digest_or_empty (snap_digest (snapshot b1)) = digest_or_empty (snap_digest (snapshot b2))
             \<and> snap_id (snapshot b1) = snap_id (snapshot b2) \<and> k1 = k2))"
proof (intro conjI impI)
  show "key_to_digest self k1 = key_to_digest self k2 \<longleftrightarrow> k1 = k2"
    by (rule key_to_digest_same_base)
  show "key_to_digest (Snapshot (s\<lparr>snap_digest := d1\<rparr>)) k
        = key_to_digest (Snapshot (s\<lparr>snap_digest := d2\<rparr>)) k
      \<longleftrightarrow> digest_or_empty d1 = digest_or_empty d2"
    by (rule key_to_digest_same_id)
  show "key_to_digest (Snapshot (s\<lparr>snap_id := i1\<rparr>)) k
        = key_to_digest (Snapshot (s\<lparr>snap_id := i2\<rparr>)) k
      \<longleftrightarrow> i1 = i2"
    by (rule key_to_digest_same_digest_and_key)
next
  assume "list_all plain_name ns1 \<and> list_all plain_name ns2"
  then show "do_digest self ins ns1 = do_digest self ins ns2 \<longleftrightarrow> ns1 = ns2"
    by (simp add: do_digest_same_instructions)
next
  assume "length (digest_or_empty (snap_digest (snapshot b1)))
          = length (digest_or_empty (snap_digest (snapshot b2)))
        \<and> length (snap_id (snapshot b1)) = length (snap_id (snapshot b2))"
  then show "key_to_digest b1 k1 = key_to_digest b2 k2
         \<longleftrightarrow> digest_or_empty (snap_digest (snapshot b1)) = digest_or_empty (snap_digest (snapshot b2))
             \<and> snap_id (snapshot b1) = snap_id (snapshot b2) \<and> k1 = k2"
    by (simp add: key_to_digest_same_lengths)
qed

theorem content_key_sensitivity_witness:
  "list_all plain_name [''check_a''] \<and> list_all plain_name [''check_a'', ''check_b'']
   \<and> do_digest (Snapshot \<lparr>snap_id = ''snapshot_1'', snap_digest = Some ''dev'', snap_metadata = []\<rparr>)
        ''install'' [''check_a'']
     \<noteq> do_digest (Snapshot \<lparr>snap_id = ''snapshot_1'', snap_digest = Some ''dev'', snap_metadata = []\<rparr>)
        ''install'' [''check_a'', ''check_b'']
   \<and> key_to_digest (Snapshot \<lparr>snap_id = ''snapshot_1'', snap_digest = Some ''dev'', snap_metadata = []\<rparr>) ''ls''
     \<noteq> key_to_digest (Snapshot \<lparr>snap_id = ''snapshot_1'', snap_digest = Some ''dev'', snap_metadata = []\<rparr>) ''pwd''
   \<and> key_to_digest (Snapshot \<lparr>snap_id = ''snapshot_1'', snap_digest = Some ''dev'', snap_metadata = []\<rparr>) ''ls''
     \<noteq> key_to_digest (Snapshot \<lparr>snap_id = ''snapshot_1'', snap_digest = Some ''prod'', snap_metadata = []\<rparr>) ''ls''
   \<and> key_to_digest (Snapshot \<lparr>snap_id = ''snapshot_1'', snap_digest = Some ''dev'', snap_metadata = []\<rparr>) ''ls''
     \<noteq> key_to_digest (Snapshot \<lparr>snap_id = ''snapshot_2'', snap_digest = Some ''dev'', snap_metadata = []\<rparr>) ''ls''
   \<and> length (digest_or_empty (snap_digest (snapshot
          (Snapshot \<lparr>snap_id = ''snapshot_1'', snap_digest = Some ''dev'', snap_metadata = []\<rparr>))))
       = length (digest_or_empty (snap_digest (snapshot
          (Snapshot \<lparr>snap_id = ''snapshot_2'', snap_digest = Some ''img'', snap_metadata = []\<rparr>))))
   \<and> length (snap_id (snapshot
          (Snapshot \<lparr>snap_id = ''snapshot_1'', snap_digest = Some ''dev'', snap_metadata = []\<rparr>)))
       = length (snap_id (snapshot
          (Snapshot \<lparr>snap_id = ''snapshot_2'', snap_digest = Some ''img'', snap_metadata = []\<rparr>)))
   \<and> key_to_digest (Snapshot \<lparr>snap_id = ''snapshot_1'', snap_digest = Some ''dev'', snap_metadata = []\<rparr>) ''ls''
     \<noteq> key_to_digest (Snapshot \<lparr>snap_id = ''snapshot_2'', snap_digest = Some ''img'', snap_metadata = []\<rparr>) ''ls''"
  using content_key_sensitivity [where
      self = "Snapshot \<lparr>snap_id = ''snapshot_1'', snap_digest = Some ''dev'', snap_metadata = []\<rparr>"
      and ?k1.0 = "''ls''" and ?k2.0 = "''ls''" and k = "''ls''"
      and s = "\<lparr>snap_id = ''snapshot_1'', snap_digest = Some ''dev'', snap_metadata = []\<rparr>"
      and ?d1.0 = "Some ''dev''" and ?d2.0 = "Some ''prod''"
      and ?i1.0 = "''snapshot_1''" and ?i2.0 = "''snapshot_2''"
      and ?ns1.0 = "[''check_a'']" and ?ns2.0 = "[''check_a'', ''check_b'']"
      and ins = "''install''"
      and ?b1.0 = "Snapshot \<lparr>snap_id = ''snapshot_1'', snap_digest = Some ''dev'', snap_metadata = []\<rparr>"
      and ?b2.0 = "Snapshot \<lparr>snap_id = ''snapshot_2'', snap_digest = Some ''img'', snap_metadata = []\<rparr>"]
    content_key_sensitivity [where
      self = "Snapshot \<lparr>snap_id = ''snapshot_1'', snap_digest = Some ''dev'', snap_metadata = []\<rparr>"
      and ?k1.0 = "''ls''" and ?k2.0 = "''pwd''"]
  by (simp add: plain_name_def digest_or_empty_def)

section \<open>The stream buffer: lemmas\<close>

lemma trim_old_lines_nonneg:
  "0 \<le> m \<Longrightarrow> trim_old_lines m buf = Inr (drop (length buf - nat m) buf)"
proof (induction buf)
  case Nil
  then show ?case by simp
next
  case (Cons l ls)
  show ?case
  proof (cases "int (length (l # ls)) > m")
    case True
    then have "length (l # ls) - nat m = Suc (length ls - nat m)"
      using Cons.prems by auto
    with True Cons show ?thesis by simp
  next
    case False
    then have "length (l # ls) - nat m = 0" by auto
    with False show ?thesis by simp
  qed
qed

lemma drop_last_window:
  "drop (length (drop (length xs - m) xs @ ys) - m) (drop (length xs - m) xs @ ys)
   = drop (length (xs @ ys) - m) (xs @ ys)"
proof (cases "length xs \<le> m")
  case True
  then show ?thesis by simp
next
  case False
  then have k: "length xs - (length xs - m) = m" by simp
  have "length (xs @ ys) - m = (length xs - m) + length ys" using False by simp
  then have "drop (length (xs @ ys) - m) (xs @ ys) = drop (length ys) (drop (length xs - m) (xs @ ys))"
    by (simp add: add.commute)
  also have "\<dots> = drop (length ys) (drop (length xs - m) xs @ ys)" by simp
  finally show ?thesis using k by simp
qed

lemma rebuild_text_any: "rebuild_text m buf t = rebuild_text m buf empty_Text"
  by (cases t) (simp add: rebuild_text_def empty_Text_def)

lemma linebreak_len_le: "linebreak_len s \<le> length s"
proof (cases s)
  case Nil
  then show ?thesis by (simp add: linebreak_len_def)
next
  case s1: (Cons a s1)
  show ?thesis
  proof (cases s1)
    case Nil
    with s1 show ?thesis by (simp add: linebreak_len_def)
  next
    case s2: (Cons b s2)
    show ?thesis
    proof (cases s2)
      case Nil
      with s1 s2 show ?thesis by (simp add: linebreak_len_def)
    next
      case (Cons c s3)
      with s1 s2 show ?thesis by (simp add: linebreak_len_def)
    qed
  qed
qed

lemma linebreak_len_append:
  assumes "l \<noteq> []" and "last l = CHR 0x0A"
  shows "linebreak_len (l @ rest) = linebreak_len l"
proof -
  consider (one) "l = [CHR 0x0A]"
    | (two) c where "l = [c, CHR 0x0A]"
    | (more) a b c l' where "l = a # b # c # l'"
    using assms
    by (cases l; cases "tl l"; cases "tl (tl l)") (auto split: if_splits)
  then show ?thesis
  proof cases
    case one
    then show ?thesis by (simp add: linebreak_len_def)
  next
    case two
    then show ?thesis by (simp add: linebreak_len_def)
  next
    case more
    then show ?thesis by (simp add: linebreak_len_def)
  qed
qed

lemma splitlines_from_line:
  "l \<noteq> [] \<Longrightarrow> last l = CHR 0x0A \<Longrightarrow> splitlines_from cur l = [cur @ l] \<Longrightarrow>
   splitlines_from cur (l @ rest) = (cur @ l) # splitlines_from [] rest"
proof (induction l arbitrary: cur)
  case Nil
  then show ?case by simp
next
  case (Cons c cs)
  have n: "linebreak_len ((c # cs) @ rest) = linebreak_len (c # cs)"
    by (rule linebreak_len_append [OF Cons.prems(1,2)])
  show ?case
  proof (cases "linebreak_len (c # cs) = 0")
    case True
    have cs: "cs \<noteq> []"
    proof
      assume "cs = []"
      with Cons.prems(2) have "linebreak_len (c # cs) = 1" by (simp add: linebreak_len_def)
      with True show False by simp
    qed
    with Cons.prems(2) have last: "last cs = CHR 0x0A" by simp
    from Cons.prems(3) True have "splitlines_from (cur @ [c]) cs = [(cur @ [c]) @ cs]" by simp
    from Cons.IH [OF cs last this, of ] True n show ?thesis by simp
  next
    case False
    with Cons.prems(3)
    have t: "take (linebreak_len (c # cs)) (c # cs) = c # cs"
      and e: "splitlines_from [] (drop (linebreak_len (c # cs)) (c # cs)) = []"
      by simp_all
    from t have "length (c # cs) \<le> linebreak_len (c # cs)"
      by (metis length_take min.cobounded2)
    with linebreak_len_le [of "c # cs"] have len: "linebreak_len (c # cs) = length (c # cs)"
      by simp
    have "splitlines_from cur ((c # cs) @ rest)
          = (cur @ take (length (c # cs)) ((c # cs) @ rest))
              # splitlines_from [] (drop (length (c # cs)) ((c # cs) @ rest))"
      using False n len by simp
    then show ?thesis by simp
  qed
qed

lemma splitlines_nonempty: "splitlines c = [c] \<Longrightarrow> c \<noteq> []"
  by (auto simp: splitlines_def)

lemma splitlines_line_append:
  assumes "splitlines l = [l]" and "last l = CHR 0x0A"
  shows "splitlines_from [] (l @ rest) = l # splitlines_from [] rest"
  using splitlines_from_line [OF splitlines_nonempty [OF assms(1)] assms(2), of "[]" rest] assms(1)
  by (simp add: splitlines_def)

lemma last_strip: "c \<noteq> [] \<Longrightarrow> last c = CHR 0x0A \<Longrightarrow> last (strip_control_codes c) = CHR 0x0A"
proof (induction c)
  case Nil
  then show ?case by simp
next
  case (Cons x xs)
  show ?case
  proof (cases "xs = []")
    case True
    with Cons.prems show ?thesis by (simp add: strip_control_codes_def)
  next
    case False
    with Cons have l: "last (strip_control_codes xs) = CHR 0x0A" by simp
    have "strip_control_codes xs \<noteq> []"
    proof -
      from False Cons.prems have "last xs = CHR 0x0A" by simp
      with False have "CHR 0x0A \<in> set xs" by (metis last_in_set)
      then show ?thesis by (auto simp: strip_control_codes_def filter_empty_conv)
    qed
    with l show ?thesis by (simp add: strip_control_codes_def)
  qed
qed

lemma rendered_line:
  assumes "single_line c"
  shows "splitlines_from [] (strip_control_codes c @ rest)
         = strip_control_codes c # splitlines_from [] rest"
proof -
  from assms have s: "splitlines c = [c]" and l: "last c = CHR 0x0A"
    and r: "splitlines (strip_control_codes c) = [strip_control_codes c]"
    by (simp_all add: single_line_def)
  from last_strip [OF splitlines_nonempty [OF s] l]
  show ?thesis by (rule splitlines_line_append [OF r])
qed

lemma rendered_concat:
  "list_all (\<lambda>x. single_line (fst x)) ls \<Longrightarrow>
   splitlines_from [] (concat (map (\<lambda>x. strip_control_codes (fst x)) ls) @ rest)
   = map (\<lambda>x. strip_control_codes (fst x)) ls @ splitlines_from [] rest"
  by (induction ls) (simp_all add: rendered_line)

lemma splitlines_ELLIPSIS:
  "splitlines_from [] (ELLIPSIS @ rest) = ELLIPSIS # splitlines_from [] rest"
  by (simp add: ELLIPSIS_def linebreak_len_def)

lemma strip_ELLIPSIS: "strip_control_codes ELLIPSIS = ELLIPSIS"
  by (simp add: ELLIPSIS_def strip_control_codes_def)

lemma ELLIPSIS_nonempty: "ELLIPSIS \<noteq> []"
  by (simp add: ELLIPSIS_def)

lemma plain_Text_append: "plain (Text_append t s style) = plain t @ strip_control_codes s"
  by (simp add: Text_append_def Let_def strip_control_codes_def)

lemma plain_foldl:
  "plain (foldl (\<lambda>t (ln, st). Text_append t ln st) t buf)
   = plain t @ concat (map (\<lambda>x. strip_control_codes (fst x)) buf)"
  by (induction buf arbitrary: t) (auto simp: plain_Text_append)

lemma plain_rebuild_text:
  "plain (rebuild_text (int M) buf t)
   = (if length buf = M then ELLIPSIS else []) @ concat (map (\<lambda>x. strip_control_codes (fst x)) buf)"
  by (simp add: rebuild_text_def plain_foldl plain_Text_append strip_ELLIPSIS)

lemma append_stream_chunk_line:
  assumes "splitlines c = [c]"
  shows "append_stream_chunk buf c t style (int M)
         = Inr (drop (length (buf @ [(c, style)]) - M) (buf @ [(c, style)]),
                rebuild_text (int M) (drop (length (buf @ [(c, style)]) - M) (buf @ [(c, style)]))
                  empty_Text)"
  using trim_old_lines_nonneg [of "int M" "buf @ [(c, style)]"] rebuild_text_any [of "int M" _ t]
  by (simp add: append_stream_chunk_def assms)

lemma feed_chunks_lines:
  "list_all (\<lambda>x. splitlines (fst x) = [fst x]) cs \<Longrightarrow> length buf \<le> M \<Longrightarrow>
   feed_chunks (int M) cs (buf, t)
   = Inr (drop (length (buf @ cs) - M) (buf @ cs),
          if cs = [] then t
          else rebuild_text (int M) (drop (length (buf @ cs) - M) (buf @ cs)) empty_Text)"
proof (induction cs arbitrary: buf t)
  case Nil
  then show ?case by simp
next
  case (Cons x cs)
  obtain c style where x: "x = (c, style)" by (cases x)
  from Cons.prems x have c: "splitlines c = [c]"
    and cs: "list_all (\<lambda>x. splitlines (fst x) = [fst x]) cs" by simp_all
  let ?b1 = "drop (length (buf @ [(c, style)]) - M) (buf @ [(c, style)])"
  have b1: "length ?b1 \<le> M" by simp
  have w: "drop (length (?b1 @ cs) - M) (?b1 @ cs)
           = drop (length (buf @ (c, style) # cs) - M) (buf @ (c, style) # cs)"
    using drop_last_window [of "buf @ [(c, style)]" M cs] by simp
  show ?case
  proof (cases "cs = []")
    case True
    then show ?thesis using append_stream_chunk_line [OF c, of buf t style M] x by simp
  next
    case False
    then show ?thesis
      using append_stream_chunk_line [OF c, of buf t style M] Cons.IH [OF cs b1] w x
      by simp
  qed
qed

lemma list_all_drop: "list_all P xs \<Longrightarrow> list_all P (drop n xs)"
  by (auto simp: list_all_iff dest: in_set_dropD)

lemma single_lines_split:
  "list_all (\<lambda>x. single_line (fst x)) cs \<Longrightarrow> list_all (\<lambda>x. splitlines (fst x) = [fst x]) cs"
  by (auto simp: list_all_iff single_line_def)

lemma feed_chunks_window:
  assumes cs: "list_all (\<lambda>x. single_line (fst x)) cs" and ne: "cs \<noteq> []"
  shows "feed_chunks (int M) cs ([], empty_Text)
         = Inr (drop (length cs - M) cs, rebuild_text (int M) (drop (length cs - M) cs) empty_Text)"
  using feed_chunks_lines [OF single_lines_split [OF cs], of "[]" M empty_Text] ne by simp

lemma rendered_lines_window:
  assumes "list_all (\<lambda>x. single_line (fst x)) ws" and "length ws = M"
  shows "rendered_lines (rebuild_text (int M) ws t)
         = ELLIPSIS # map (\<lambda>x. strip_control_codes (fst x)) ws"
  using rendered_concat [OF assms(1), of "[]"] assms(2)
  by (simp add: rendered_lines_def splitlines_def plain_rebuild_text splitlines_ELLIPSIS)

lemma feed_chunks_prefix_bounded:
  assumes "list_all (\<lambda>x. single_line (fst x)) cs"
  shows "\<exists>buf t. feed_chunks (int M) (take k cs) ([], empty_Text) = Inr (buf, t) \<and> length buf \<le> M"
proof -
  have "list_all (\<lambda>x. single_line (fst x)) (take k cs)"
    using assms by (auto simp: list_all_iff dest: in_set_takeD)
  from feed_chunks_lines [OF single_lines_split [OF this], of "[]" M empty_Text]
  show ?thesis by simp
qed

lemma count_list_absent: "x \<notin> set xs \<Longrightarrow> count_list xs x = 0"
  by (induction xs) auto

section \<open>C5: the buffer after 1000 one-line chunks\<close>

text \<open>
  C5, amended: feed 1000 single-line chunks (each one line ended by LF, with whatever
  style) through the buffer with \<open>max_lines = 24\<close>. The buffer then holds the last 24
  chunks; the rendered text has exactly 25 lines, not 24: the truncation marker first,
  then the 24 buffered lines (as \<open>Text.append\<close> renders them); the marker is added once,
  so it appears exactly once unless a buffered line is itself the marker text; and
  after every chunk the buffer holds at most 24 entries.
\<close>

theorem stream_buffer_window:
  assumes "length chunks = 1000" and "list_all (\<lambda>x. single_line (fst x)) chunks"
  shows "feed_chunks 24 chunks ([], empty_Text)
           = Inr (drop 976 chunks, rebuild_text 24 (drop 976 chunks) empty_Text)
         \<and> rendered_lines (rebuild_text 24 (drop 976 chunks) empty_Text)
           = ELLIPSIS # map (\<lambda>x. strip_control_codes (fst x)) (drop 976 chunks)
         \<and> length (rendered_lines (rebuild_text 24 (drop 976 chunks) empty_Text)) = 25
         \<and> (ELLIPSIS \<notin> set (map (\<lambda>x. strip_control_codes (fst x)) (drop 976 chunks)) \<longrightarrow>
              count_list (rendered_lines (rebuild_text 24 (drop 976 chunks) empty_Text)) ELLIPSIS = 1)
         \<and> (\<forall>k \<le> 1000. \<exists>buf t.
               feed_chunks 24 (take k chunks) ([], empty_Text) = Inr (buf, t) \<and> length buf \<le> 24)"
proof (intro conjI allI impI)
  have ne: "chunks \<noteq> []" using assms(1) by auto
  have last: "list_all (\<lambda>x. single_line (fst x)) (drop 976 chunks)"
    by (rule list_all_drop [OF assms(2)])
  have len: "length (drop 976 chunks) = 24" using assms(1) by simp
  from feed_chunks_window [OF assms(2) ne, of 24]
  show "feed_chunks 24 chunks ([], empty_Text)
           = Inr (drop 976 chunks, rebuild_text 24 (drop 976 chunks) empty_Text)"
    by (simp add: assms(1))
  from rendered_lines_window [OF last len, of empty_Text]
  show r: "rendered_lines (rebuild_text 24 (drop 976 chunks) empty_Text)
           = ELLIPSIS # map (\<lambda>x. strip_control_codes (fst x)) (drop 976 chunks)"
    by simp
  from r len show "length (rendered_lines (rebuild_text 24 (drop 976 chunks) empty_Text)) = 25"
    by simp
  assume "ELLIPSIS \<notin> set (map (\<lambda>x. strip_control_codes (fst x)) (drop 976 chunks))"
  from count_list_absent [OF this] r
  show "count_list (rendered_lines (rebuild_text 24 (drop 976 chunks) empty_Text)) ELLIPSIS = 1"
    by simp
next
  fix k :: nat
  from feed_chunks_prefix_bounded [OF assms(2), of 24 k]
  show "\<exists>buf t. feed_chunks 24 (take k chunks) ([], empty_Text) = Inr (buf, t) \<and> length buf \<le> 24"
    by simp
qed

theorem stream_buffer_window_witness:
  "length (replicate 1000 ([CHR 0xE2, CHR 0x9C, CHR 0x93] @ '' ok'' @ [CHR 0x0A], Some ''#F23F42'')) = 1000
   \<and> list_all (\<lambda>x. single_line (fst x))
        (replicate 1000 ([CHR 0xE2, CHR 0x9C, CHR 0x93] @ '' ok'' @ [CHR 0x0A], Some ''#F23F42''))
   \<and> feed_chunks 24
        (replicate 1000 ([CHR 0xE2, CHR 0x9C, CHR 0x93] @ '' ok'' @ [CHR 0x0A], Some ''#F23F42''))
        ([], empty_Text)
       = Inr (replicate 24 ([CHR 0xE2, CHR 0x9C, CHR 0x93] @ '' ok'' @ [CHR 0x0A], Some ''#F23F42''),
              rebuild_text 24
                (replicate 24 ([CHR 0xE2, CHR 0x9C, CHR 0x93] @ '' ok'' @ [CHR 0x0A], Some ''#F23F42''))
                empty_Text)
   \<and> rendered_lines
        (rebuild_text 24
           (replicate 24 ([CHR 0xE2, CHR 0x9C, CHR 0x93] @ '' ok'' @ [CHR 0x0A], Some ''#F23F42''))
           empty_Text)
       = ELLIPSIS # replicate 24 ([CHR 0xE2, CHR 0x9C, CHR 0x93] @ '' ok'' @ [CHR 0x0A])"
proof -
  let ?line = "[CHR 0xE2, CHR 0x9C, CHR 0x93] @ '' ok'' @ [CHR 0x0A]"
  let ?x = "(?line, Some ''#F23F42'')"
  have h1: "length (replicate 1000 ?x) = 1000" by simp
  have sl: "single_line ?line" by code_simp
  have h2: "list_all (\<lambda>x. single_line (fst x)) (replicate 1000 ?x)"
    using sl by (simp add: list_all_iff)
  have d: "drop 976 (replicate 1000 ?x) = replicate 24 ?x"
    by (simp only: drop_replicate) simp
  have s: "strip_control_codes ?line = ?line" by code_simp
  have m: "map (\<lambda>x. strip_control_codes (fst x)) (replicate 24 ?x) = replicate 24 ?line"
    by (simp only: map_replicate fst_conv s)
  from stream_buffer_window [OF h1 h2] h1 h2 show ?thesis
    by (simp only: d m)
qed

text \<open>
  C5, as stated, fails: after 1000 chunks \<open>x\<close> LF the rendered text has 25 lines (the marker
  and 24 buffered lines), not 24.
\<close>

theorem stream_buffer_25_lines:
  "feed_chunks 24 (replicate 1000 (''x\<newline>'', None)) ([], empty_Text)
     = Inr (replicate 24 (''x\<newline>'', None),
            \<lparr>plain = ELLIPSIS @ concat (replicate 24 ''x\<newline>''),
             spans = [(0, 23, ''dim'')]\<rparr>)
   \<and> length (rendered_lines \<lparr>plain = ELLIPSIS @ concat (replicate 24 ''x\<newline>''),
                              spans = [(0, 23, ''dim'')]\<rparr>) = 25"
proof -
  let ?x = "(''x\<newline>'', None :: string option)"
  have sl: "single_line ''x\<newline>''" by code_simp
  have h2: "list_all (\<lambda>x. single_line (fst x)) (replicate 1000 ?x)"
    using sl by (simp add: list_all_iff)
  have ne: "replicate 1000 ?x \<noteq> []" by simp
  have d: "drop (length (replicate 1000 ?x) - 24) (replicate 1000 ?x) = replicate 24 ?x"
    by (simp only: drop_replicate length_replicate) simp
  have r: "rebuild_text 24 (replicate 24 ?x) empty_Text
           = \<lparr>plain = ELLIPSIS @ concat (replicate 24 ''x\<newline>''), spans = [(0, 23, ''dim'')]\<rparr>"
    by code_simp
  have a: "feed_chunks 24 (replicate 1000 ?x) ([], empty_Text)
     = Inr (replicate 24 ?x,
            \<lparr>plain = ELLIPSIS @ concat (replicate 24 ''x\<newline>''), spans = [(0, 23, ''dim'')]\<rparr>)"
    using feed_chunks_window [OF h2 ne, of 24] by (simp only: d) (simp add: r)
  have b: "length (rendered_lines \<lparr>plain = ELLIPSIS @ concat (replicate 24 ''x\<newline>''),
                              spans = [(0, 23, ''dim'')]\<rparr>) = 25"
    by code_simp
  from a b show ?thesis by (rule conjI)
qed

section \<open>Remote execution: lemmas\<close>

lemma recv_loop_data:
  assumes "recv_loop chan decode chunk_size c acc = Some r"
  shows "\<exists>new. fst r = acc @ new \<and> list_all data_message new"
proof (rule recv_loop.raw_induct
    [where P = "\<lambda>chan decode chunk_size c acc r. \<exists>new. fst r = acc @ new \<and> list_all data_message new",
      OF _ assms])
  fix loop and chan :: "'a Channel" and decode chunk_size c acc r
  assume IH: "\<And>chan decode chunk_size c acc r. loop chan decode chunk_size c acc = Some r \<Longrightarrow>
            \<exists>new. fst r = acc @ new \<and> list_all data_message new"
    and step: "(case recv_ready chan c of (ready, c1) \<Rightarrow>
        if ready then
          (case recv chan chunk_size c1 of (data, c2) \<Rightarrow>
             loop chan decode chunk_size c2
               (if data \<noteq> [] then acc @ [Stdout (decode data)] else acc))
        else Some (acc, c1)) = Some r"
  obtain ready c1 where rr: "recv_ready chan c = (ready, c1)" by (cases "recv_ready chan c")
  show "\<exists>new. fst r = acc @ new \<and> list_all data_message new"
  proof (cases ready)
    case False
    with step rr show ?thesis by auto
  next
    case True
    obtain data c2 where rc: "recv chan chunk_size c1 = (data, c2)"
      by (cases "recv chan chunk_size c1")
    from step rr True rc
    have "loop chan decode chunk_size c2 (if data \<noteq> [] then acc @ [Stdout (decode data)] else acc) = Some r"
      by simp
    from IH [OF this] obtain new
      where "fst r = (if data \<noteq> [] then acc @ [Stdout (decode data)] else acc) @ new"
        and "list_all data_message new" by blast
    then show ?thesis
      by (cases "data = []") (auto simp: data_message_def)
  qed
qed

lemma recv_stderr_loop_data:
  assumes "recv_stderr_loop chan decode chunk_size c acc = Some r"
  shows "\<exists>new. fst r = acc @ new \<and> list_all data_message new"
proof (rule recv_stderr_loop.raw_induct
    [where P = "\<lambda>chan decode chunk_size c acc r. \<exists>new. fst r = acc @ new \<and> list_all data_message new",
      OF _ assms])
  fix loop and chan :: "'a Channel" and decode chunk_size c acc r
  assume IH: "\<And>chan decode chunk_size c acc r. loop chan decode chunk_size c acc = Some r \<Longrightarrow>
            \<exists>new. fst r = acc @ new \<and> list_all data_message new"
    and step: "(case recv_stderr_ready chan c of (ready, c1) \<Rightarrow>
        if ready then
          (case recv_stderr chan chunk_size c1 of (data, c2) \<Rightarrow>
             loop chan decode chunk_size c2
               (if data \<noteq> [] then acc @ [Stdin (decode data)] else acc))
        else Some (acc, c1)) = Some r"
  obtain ready c1 where rr: "recv_stderr_ready chan c = (ready, c1)"
    by (cases "recv_stderr_ready chan c")
  show "\<exists>new. fst r = acc @ new \<and> list_all data_message new"
  proof (cases ready)
    case False
    with step rr show ?thesis by auto
  next
    case True
    obtain data c2 where rc: "recv_stderr chan chunk_size c1 = (data, c2)"
      by (cases "recv_stderr chan chunk_size c1")
    from step rr True rc
    have "loop chan decode chunk_size c2 (if data \<noteq> [] then acc @ [Stdin (decode data)] else acc) = Some r"
      by simp
    from IH [OF this] obtain new
      where "fst r = (if data \<noteq> [] then acc @ [Stdin (decode data)] else acc) @ new"
        and "list_all data_message new" by blast
    then show ?thesis
      by (cases "data = []") (auto simp: data_message_def)
  qed
qed

lemma poll_loop_data:
  assumes "poll_loop chan decode chunk_size c acc = Some r"
  shows "\<exists>new. fst r = acc @ new \<and> list_all data_message new"
proof (rule poll_loop.raw_induct
    [where P = "\<lambda>chan decode chunk_size c acc r. \<exists>new. fst r = acc @ new \<and> list_all data_message new",
      OF _ assms])
  fix loop and chan :: "'a Channel" and decode chunk_size c acc r
  assume IH: "\<And>chan decode chunk_size c acc r. loop chan decode chunk_size c acc = Some r \<Longrightarrow>
            \<exists>new. fst r = acc @ new \<and> list_all data_message new"
    and step: "(case recv_loop chan decode chunk_size c acc of
        None \<Rightarrow> None
      | Some (acc1, c1) \<Rightarrow>
         (case recv_stderr_loop chan decode chunk_size c1 acc1 of
            None \<Rightarrow> None
          | Some (acc2, c2) \<Rightarrow>
             (case exit_test chan c2 of (done, c3) \<Rightarrow>
                if done then Some (acc2, c3)
                else loop chan decode chunk_size (sleep chan c3) acc2))) = Some r"
  from step obtain acc1 c1 where r1: "recv_loop chan decode chunk_size c acc = Some (acc1, c1)"
    by (cases "recv_loop chan decode chunk_size c acc") auto
  from step r1 obtain acc2 c2
    where r2: "recv_stderr_loop chan decode chunk_size c1 acc1 = Some (acc2, c2)"
    by (cases "recv_stderr_loop chan decode chunk_size c1 acc1") auto
  obtain leave c3 where r3: "exit_test chan c2 = (leave, c3)" by (cases "exit_test chan c2")
  from recv_loop_data [OF r1] obtain n1 where n1: "acc1 = acc @ n1" "list_all data_message n1"
    by auto
  from recv_stderr_loop_data [OF r2] obtain n2 where n2: "acc2 = acc1 @ n2" "list_all data_message n2"
    by auto
  show "\<exists>new. fst r = acc @ new \<and> list_all data_message new"
  proof (cases leave)
    case True
    with step r1 r2 r3 have "r = (acc2, c3)" by simp
    with n1 n2 show ?thesis by simp
  next
    case False
    with step r1 r2 r3 have "loop chan decode chunk_size (sleep chan c3) acc2 = Some r" by simp
    from IH [OF this] obtain n3 where "fst r = acc2 @ n3" "list_all data_message n3" by blast
    with n1 n2 show ?thesis by simp
  qed
qed

lemma ssh_stream_connected:
  assumes "get_transport ssh \<noteq> None"
    and "ssh_stream chan ssh command decode chunk_size = Some (msgs, fin)"
  shows "fin = None \<and> (\<exists>data code. msgs = data @ [ExitCode code] \<and> list_all data_message data)"
proof -
  from assms(1) obtain transport where tr: "get_transport ssh = Some transport" by auto
  from assms(2) tr obtain acc c
    where pl: "poll_loop chan decode chunk_size (transport command) [] = Some (acc, c)"
    by (cases "poll_loop chan decode chunk_size (transport command) []")
       (auto simp: ssh_stream_def)
  obtain code c' where ex: "recv_exit_status chan c = (code, c')"
    by (cases "recv_exit_status chan c")
  from assms(2) tr pl ex have "msgs = acc @ [ExitCode code]" and "fin = None"
    by (simp_all add: ssh_stream_def)
  moreover from poll_loop_data [OF pl] have "list_all data_message acc" by simp
  ultimately show ?thesis by blast
qed

lemma exit_code_count:
  "list_all data_message data \<Longrightarrow>
   filter (\<lambda>m. channel m = ''exit_code'') (data @ [ExitCode code]) = [ExitCode code]"
  by (induction data) (auto simp: data_message_def)

lemma data_message_tags:
  "list_all data_message data \<Longrightarrow>
   list_all (\<lambda>m. channel m \<in> {''stdout'', ''stdin'', ''exit_code''}) (data @ [ExitCode code])"
  by (induction data) (auto simp: data_message_def)

section \<open>C6: what the stream of \<open>ssh_stream\<close> holds\<close>

text \<open>
  C6, amended: when the transport is connected and the stream ends, no exception ends
  it, every element is tagged \<open>stdout\<close>, \<open>stdin\<close> (the tag of the chunks read from the
  remote error output) or \<open>exit_code\<close>, and the stream holds exactly one \<open>exit_code\<close>
  element, its last.
\<close>

theorem ssh_stream_messages:
  assumes "get_transport ssh \<noteq> None"
    and "ssh_stream chan ssh command decode chunk_size = Some (msgs, fin)"
  shows "fin = None
         \<and> list_all (\<lambda>m. channel m \<in> {''stdout'', ''stdin'', ''exit_code''}) msgs
         \<and> (\<exists>data code. msgs = data @ [ExitCode code] \<and> list_all data_message data)
         \<and> length (filter (\<lambda>m. channel m = ''exit_code'') msgs) = 1"
proof -
  from ssh_stream_connected [OF assms] obtain data code
    where fin: "fin = None" and msgs: "msgs = data @ [ExitCode code]"
      and data: "list_all data_message data" by blast
  from data_message_tags [OF data, of code] msgs
  have tags: "list_all (\<lambda>m. channel m \<in> {''stdout'', ''stdin'', ''exit_code''}) msgs" by simp
  from exit_code_count [OF data, of code] msgs
  have one: "length (filter (\<lambda>m. channel m = ''exit_code'') msgs) = 1" by simp
  from fin tags msgs data one show ?thesis by blast
qed

theorem ssh_stream_messages_witness:
  "get_transport (scripted_ssh [Out ''hello'', Exit 0]) \<noteq> None
   \<and> ssh_stream scripted_channel (scripted_ssh [Out ''hello'', Exit 0]) ''echo hello'' id 4096
       = Some ([Stdout ''hello'', ExitCode 0], None)
   \<and> length (filter (\<lambda>m. channel m = ''exit_code'') [Stdout ''hello'', ExitCode 0]) = 1"
proof -
  have h1: "get_transport (scripted_ssh [Out ''hello'', Exit 0]) \<noteq> None"
    by (simp add: scripted_ssh_def)
  have h2: "ssh_stream scripted_channel (scripted_ssh [Out ''hello'', Exit 0]) ''echo hello'' id 4096
       = Some ([Stdout ''hello'', ExitCode 0], None)"
    by code_simp
  from ssh_stream_messages [OF h1 h2] h1 h2 show ?thesis by simp
qed

text \<open>
  C6, as stated, fails: a chunk of the remote error output is yielded with the tag
  \<open>stdin\<close>, which is none of \<open>stdout\<close>, \<open>stderr\<close>, \<open>exit_code\<close>.
\<close>

theorem ssh_stream_tags_stderr_as_stdin:
  "ssh_stream scripted_channel (scripted_ssh [Out ''hello'', Err ''oops'', Exit 3]) ''ls'' id 4096
     = Some ([Stdout ''hello'', Stdin ''oops'', ExitCode 3], None)
   \<and> channel (Stdin ''oops'') \<notin> {''stdout'', ''stderr'', ''exit_code''}"
proof -
  have "ssh_stream scripted_channel (scripted_ssh [Out ''hello'', Err ''oops'', Exit 3]) ''ls'' id 4096
     = Some ([Stdout ''hello'', Stdin ''oops'', ExitCode 3], None)"
    by code_simp
  then show ?thesis by simp
qed

section \<open>The store and \<open>apply\<close>: lemmas\<close>

lemma invalidate_snaps_all:
  "invalidate_snaps (\<lambda>_. True) snaps w
   = ([], w\<lparr>store := filter (\<lambda>t. snap_id t \<notin> snap_id ` set snaps) (store w)\<rparr>)"
proof (induction snaps arbitrary: w)
  case Nil
  then show ?case by simp
next
  case (Cons s snaps)
  have "filter (\<lambda>t. snap_id t \<notin> snap_id ` set snaps) (filter (\<lambda>t. snap_id t \<noteq> snap_id s) (store w))
        = filter (\<lambda>t. snap_id t \<notin> snap_id ` set (s # snaps)) (store w)"
    by (induction "store w") (auto intro: filter_cong)
  with Cons show ?case by (simp add: snapshot_delete_def)
qed

lemma invalidate_snaps_store:
  "set (store (snd (invalidate_snaps f snaps w))) \<subseteq> set (store w)"
proof (induction snaps arbitrary: w)
  case Nil
  then show ?case by simp
next
  case (Cons s snaps)
  show ?case
  proof (cases "f (Snapshot s)")
    case True
    have "set (store (snapshot_delete s w)) \<subseteq> set (store w)"
      by (auto simp: snapshot_delete_def)
    with Cons [of "snapshot_delete s w"] True show ?thesis by auto
  next
    case False
    with Cons [of w] show ?thesis by (simp add: case_prod_beta)
  qed
qed

lemma cache_check_store:
  "set (store (snd (cache_check self key invalidate w))) \<subseteq> set (store w)"
  using invalidate_snaps_store
  by (auto simp: cache_check_def Let_def split: option.splits)

lemma cache_check_invalidate_all:
  assumes "k \<noteq> []"
  shows "cache_check self (Some k) (InvBool True) w
         = ([], w\<lparr>store := filter (\<lambda>t. snap_id t \<notin> snap_id ` set (snapshots_list w (key_to_digest self k)))
                               (store w)\<rparr>)"
  using assms by (simp add: cache_check_def Let_def invalidate_snaps_all)

lemma snapshots_list_after_delete:
  "snapshots_list (w\<lparr>store := filter (\<lambda>t. snap_id t \<notin> snap_id ` set (snapshots_list w d)) (store w)\<rparr>) d
   = []"
  by (auto simp: snapshots_list_def filter_empty_conv)

lemma cache_check_hit:
  assumes "k \<noteq> []" and "\<not> truthy invalidate"
  shows "cache_check self (Some k) invalidate w = (snapshots_list w (key_to_digest self k), w)"
  using assms by (simp add: cache_check_def Let_def)

section \<open>C1: a cache hit\<close>

text \<open>
  C1, amended: for every \<open>apply\<close> call with a key that is neither \<open>None\<close> nor empty, where
  the store's lookup for the derived digest gives a non-empty sequence and \<open>invalidate\<close>
  is falsy, \<open>apply\<close> returns the first matching record unmodified and leaves the world as
  it was: no instance started, the operation function not called, no snapshot created.
\<close>

theorem apply_cache_hit:
  assumes "k \<noteq> []" and "\<not> truthy invalidate"
    and "snapshots_list w (key_to_digest self k) = s # rest"
  shows "Snapshot_apply self func (Some k) start_fn invalidate w = Some (Inr (Snapshot s), w)"
  using assms(3) by (simp add: Snapshot_apply_def cache_check_hit [OF assms(1,2)])

theorem apply_cache_hit_witness:
  "''ls'' \<noteq> [] \<and> \<not> truthy (InvBool False)
   \<and> snapshots_list
        \<lparr>store = [\<lparr>snap_id = ''s7'', snap_digest = Some ''imgs1ls'', snap_metadata = []\<rparr>,
                  \<lparr>snap_id = ''s8'', snap_digest = Some ''imgs1ls'', snap_metadata = []\<rparr>],
         started = [], next_id = 9, calls = 0\<rparr>
        (key_to_digest (Snapshot \<lparr>snap_id = ''s1'', snap_digest = Some ''img'', snap_metadata = []\<rparr>) ''ls'')
      = [\<lparr>snap_id = ''s7'', snap_digest = Some ''imgs1ls'', snap_metadata = []\<rparr>,
         \<lparr>snap_id = ''s8'', snap_digest = Some ''imgs1ls'', snap_metadata = []\<rparr>]
   \<and> Snapshot_apply (Snapshot \<lparr>snap_id = ''s1'', snap_digest = Some ''img'', snap_metadata = []\<rparr>)
        identity_operation (Some ''ls'') StartNone (InvBool False)
        \<lparr>store = [\<lparr>snap_id = ''s7'', snap_digest = Some ''imgs1ls'', snap_metadata = []\<rparr>,
                  \<lparr>snap_id = ''s8'', snap_digest = Some ''imgs1ls'', snap_metadata = []\<rparr>],
         started = [], next_id = 9, calls = 0\<rparr>
      = Some (Inr (Snapshot \<lparr>snap_id = ''s7'', snap_digest = Some ''imgs1ls'', snap_metadata = []\<rparr>),
              \<lparr>store = [\<lparr>snap_id = ''s7'', snap_digest = Some ''imgs1ls'', snap_metadata = []\<rparr>,
                        \<lparr>snap_id = ''s8'', snap_digest = Some ''imgs1ls'', snap_metadata = []\<rparr>],
               started = [], next_id = 9, calls = 0\<rparr>)"
proof -
  have h1: "''ls'' \<noteq> []" by simp
  have h2: "\<not> truthy (InvBool False)" by simp
  have h3: "snapshots_list
        \<lparr>store = [\<lparr>snap_id = ''s7'', snap_digest = Some ''imgs1ls'', snap_metadata = []\<rparr>,
                  \<lparr>snap_id = ''s8'', snap_digest = Some ''imgs1ls'', snap_metadata = []\<rparr>],
         started = [], next_id = 9, calls = 0\<rparr>
        (key_to_digest (Snapshot \<lparr>snap_id = ''s1'', snap_digest = Some ''img'', snap_metadata = []\<rparr>) ''ls'')
      = \<lparr>snap_id = ''s7'', snap_digest = Some ''imgs1ls'', snap_metadata = []\<rparr>
        # [\<lparr>snap_id = ''s8'', snap_digest = Some ''imgs1ls'', snap_metadata = []\<rparr>]"
    by (simp add: snapshots_list_def key_to_digest_def digest_or_empty_def)
  from apply_cache_hit [OF h1 h2 h3, of identity_operation StartNone] h1 h2 h3
  show ?thesis by simp
qed

text \<open>
  C1, as stated, fails for the empty key, which is not \<open>None\<close>: \<open>if key:\<close> is false, so no
  lookup is made although the store holds a snapshot under the derived digest; an
  instance is started, the operation function is called once and a snapshot is created.
\<close>

theorem apply_empty_key_runs:
  "snapshots_list
      \<lparr>store = [\<lparr>snap_id = ''s7'', snap_digest = Some ''imgs1'', snap_metadata = []\<rparr>],
       started = [], next_id = 2, calls = 0\<rparr>
      (key_to_digest (Snapshot \<lparr>snap_id = ''s1'', snap_digest = Some ''img'', snap_metadata = []\<rparr>) [])
     = [\<lparr>snap_id = ''s7'', snap_digest = Some ''imgs1'', snap_metadata = []\<rparr>]
   \<and> Snapshot_apply (Snapshot \<lparr>snap_id = ''s1'', snap_digest = Some ''img'', snap_metadata = []\<rparr>)
        identity_operation (Some []) StartNone (InvBool False)
        \<lparr>store = [\<lparr>snap_id = ''s7'', snap_digest = Some ''imgs1'', snap_metadata = []\<rparr>],
         started = [], next_id = 2, calls = 0\<rparr>
     = Some (Inr (Snapshot \<lparr>snap_id = ''snapshot_3'', snap_digest = None, snap_metadata = []\<rparr>),
             \<lparr>store = [\<lparr>snap_id = ''s7'', snap_digest = Some ''imgs1'', snap_metadata = []\<rparr>,
                       \<lparr>snap_id = ''snapshot_3'', snap_digest = None, snap_metadata = []\<rparr>],
              started = [\<lparr>inst_id = ''morphvm_2'', inst_snapshot_id = ''s1'',
                          inst_metadata = [(''root'', ''s1'')]\<rparr>],
              next_id = 4, calls = 1\<rparr>)"
  by code_simp

section \<open>\<open>Snapshot.run\<close>: lemmas\<close>

lemma append_stream_chunk_default:
  "\<exists>st'. append_stream_chunk buf c t style STREAM_MAX_LINES = Inr st'"
  using trim_old_lines_nonneg [of STREAM_MAX_LINES]
  by (simp add: append_stream_chunk_def STREAM_MAX_LINES_def)

lemma feed_chunks_default:
  "\<exists>st'. feed_chunks STREAM_MAX_LINES cs st = Inr st'"
proof (induction cs arbitrary: st)
  case Nil
  then show ?case by simp
next
  case (Cons c cs)
  obtain chunk style where c: "c = (chunk, style)" by (cases c)
  obtain buf t where st: "st = (buf, t)" by (cases st)
  from append_stream_chunk_default [of buf chunk t style] obtain st1
    where "append_stream_chunk buf chunk t style STREAM_MAX_LINES = Inr st1" by blast
  with Cons [of st1] c st show ?case by simp
qed

lemma instance_exec_msgs_feed:
  "list_all data_message data \<Longrightarrow>
   feed_chunks STREAM_MAX_LINES (map styled_chunk data) st = Inr st' \<Longrightarrow>
   instance_exec_msgs out_cb err_cb (data @ ExitCode code # rest) fin st = (Inr code, st')"
proof (induction data arbitrary: st)
  case Nil
  then show ?case by simp
next
  case (Cons m data)
  obtain buf t where st: "st = (buf, t)" by (cases st)
  show ?case
  proof (cases m)
    case (Stdout x)
    from Cons.prems(2) obtain st1
      where a: "append_stream_chunk buf x t None STREAM_MAX_LINES = Inr st1"
        and f: "feed_chunks STREAM_MAX_LINES (map styled_chunk data) st1 = Inr st'"
      by (auto simp: Stdout st split: sum.splits)
    from Cons.prems(1) have "list_all data_message data" by simp
    from Cons.IH [OF this f] a show ?thesis by (simp add: Stdout st out_cb_def)
  next
    case (Stdin x)
    from Cons.prems(2) obtain st1
      where a: "append_stream_chunk buf x t (Some (colour ''error'')) STREAM_MAX_LINES = Inr st1"
        and f: "feed_chunks STREAM_MAX_LINES (map styled_chunk data) st1 = Inr st'"
      by (auto simp: Stdin st split: sum.splits)
    from Cons.prems(1) have "list_all data_message data" by simp
    from Cons.IH [OF this f] a show ?thesis by (simp add: Stdin st err_cb_def)
  next
    case (ExitCode k)
    with Cons.prems(1) show ?thesis by (simp add: data_message_def)
  qed
qed


lemma run_on_miss:
  assumes "cache_check self (Some command) invalidate w = ([], w1)"
  shows "Snapshot_run remote self command invalidate w
         = apply_miss self (execute remote command) (Some command) StartNone w1"
  unfolding Snapshot_run_def Snapshot_apply_def assms by simp

lemma execute_failure:
  assumes "instance_exec remote inst command out_cb err_cb ([], empty_Text)
           = Some (Inr exit_code, (buf, out_text))"
    and "exit_code \<noteq> 0"
  shows "execute remote command inst w'
         = Some (Inl (Exception (failure_message command exit_code out_text)), w')"
  unfolding execute_def assms(1) using assms(2) by simp

lemma execute_success:
  assumes "instance_exec remote inst command out_cb err_cb ([], empty_Text) = Some (Inr 0, st)"
  shows "execute remote command inst w' = Some (Inr None, w')"
  unfolding execute_def assms by (cases st) simp

lemma run_failure:
  assumes "cache_check self (Some command) invalidate w = ([], w1)"
    and "Snapshot_start self w1 = (inst, w2)"
    and "instance_exec remote inst command out_cb err_cb ([], empty_Text)
         = Some (Inr exit_code, (buf, out_text))"
    and "exit_code \<noteq> 0"
  shows "Snapshot_run remote self command invalidate w
         = Some (Inl (Exception (failure_message command exit_code out_text)),
                 w2\<lparr>calls := Suc (calls w2)\<rparr>)"
  unfolding run_on_miss [OF assms(1)] apply_miss_def StartFn.case assms(2)
    prod.case execute_failure [OF assms(3,4)]
  by simp

lemma Snapshot_start_store: "Snapshot_start self w = (inst, w') \<Longrightarrow> store w' = store w"
  by (auto simp: Snapshot_start_def instances_start_def Let_def)

lemma sublist_command: "sublist command (failure_message command exit_code out_text)"
  unfolding failure_message_def by (rule sublist_appendI)

lemma sublist_exit_code: "sublist (str_int exit_code) (failure_message command exit_code out_text)"
proof -
  have "failure_message command exit_code out_text
        = (''Command execution failed: '' @ command @ '' exit='') @ str_int exit_code
          @ ('' stdout='' @ plain out_text @ '' stderr='' @ plain out_text)"
    unfolding failure_message_def by (simp only: append_assoc)
  then show ?thesis by (simp only: sublist_appendI)
qed

section \<open>C3: \<open>run\<close> with \<open>invalidate=True\<close>\<close>

text \<open>
  C3, amended: for every non-empty command and base snapshot, \<open>run(cmd, invalidate=True)\<close>
  deletes every snapshot stored under the content key of (base, cmd) before it runs the
  command, and when the command exits with code 0 the call returns and the store then
  holds exactly one snapshot under that key, the one returned.
\<close>

theorem run_invalidate_leaves_one:
  assumes "command \<noteq> []"
    and "cache_check self (Some command) (InvBool True) w = (snaps, w1)"
    and "Snapshot_start self w1 = (inst, w2)"
    and "instance_exec remote inst command out_cb err_cb ([], empty_Text) = Some (Inr 0, st)"
  shows "snaps = [] \<and> snapshots_list w1 (key_to_digest self command) = []
         \<and> (\<exists>snap w'. Snapshot_run remote self command (InvBool True) w
                          = Some (Inr (Snapshot snap), w')
                        \<and> snapshots_list w' (key_to_digest self command) = [snap])"
proof -
  let ?d = "key_to_digest self command"
  from cache_check_invalidate_all [OF assms(1), of self w] assms(2)
  have snaps: "snaps = []"
    and w1: "w1 = w\<lparr>store := filter (\<lambda>t. snap_id t \<notin> snap_id ` set (snapshots_list w ?d)) (store w)\<rparr>"
    by simp_all
  have empty: "snapshots_list w1 ?d = []"
    unfolding w1 by (rule snapshots_list_after_delete)
  have miss: "cache_check self (Some command) (InvBool True) w = ([], w1)"
    using assms(2) snaps by simp
  let ?snap = "\<lparr>snap_id = ''snapshot_'' @ str_nat (next_id w2), snap_digest = Some ?d,
                snap_metadata = []\<rparr>"
  let ?w' = "w2\<lparr>calls := Suc (calls w2), store := store w2 @ [?snap],
                next_id := Suc (next_id w2)\<rparr>"
  have run: "Snapshot_run remote self command (InvBool True) w = Some (Inr (Snapshot ?snap), ?w')"
    unfolding run_on_miss [OF miss] apply_miss_def StartFn.case assms(3) prod.case
      execute_success [OF assms(4)]
    using assms(1) by (simp add: instance_snapshot_def Let_def)
  have "store w2 = store w1" by (rule Snapshot_start_store [OF assms(3)])
  with empty have "snapshots_list ?w' ?d = [?snap]"
    by (simp add: snapshots_list_def)
  with snaps empty run show ?thesis by blast
qed

theorem run_invalidate_leaves_one_witness:
  "''ls'' \<noteq> []
   \<and> cache_check (Snapshot \<lparr>snap_id = ''s1'', snap_digest = Some ''img'', snap_metadata = []\<rparr>)
        (Some ''ls'') (InvBool True)
        \<lparr>store = [\<lparr>snap_id = ''s7'', snap_digest = Some ''imgs1ls'', snap_metadata = []\<rparr>,
                  \<lparr>snap_id = ''s8'', snap_digest = Some ''other'', snap_metadata = []\<rparr>,
                  \<lparr>snap_id = ''s9'', snap_digest = Some ''imgs1ls'', snap_metadata = []\<rparr>],
         started = [], next_id = 10, calls = 0\<rparr>
       = ([], \<lparr>store = [\<lparr>snap_id = ''s8'', snap_digest = Some ''other'', snap_metadata = []\<rparr>],
               started = [], next_id = 10, calls = 0\<rparr>)
   \<and> Snapshot_start (Snapshot \<lparr>snap_id = ''s1'', snap_digest = Some ''img'', snap_metadata = []\<rparr>)
        \<lparr>store = [\<lparr>snap_id = ''s8'', snap_digest = Some ''other'', snap_metadata = []\<rparr>],
         started = [], next_id = 10, calls = 0\<rparr>
       = (\<lparr>inst_id = ''morphvm_10'', inst_snapshot_id = ''s1'', inst_metadata = [(''root'', ''s1'')]\<rparr>,
          \<lparr>store = [\<lparr>snap_id = ''s8'', snap_digest = Some ''other'', snap_metadata = []\<rparr>],
           started = [\<lparr>inst_id = ''morphvm_10'', inst_snapshot_id = ''s1'',
                       inst_metadata = [(''root'', ''s1'')]\<rparr>],
           next_id = 11, calls = 0\<rparr>)
   \<and> instance_exec (scripted_remote [Out ''ok'', Exit 0])
        \<lparr>inst_id = ''morphvm_10'', inst_snapshot_id = ''s1'', inst_metadata = [(''root'', ''s1'')]\<rparr>
        ''ls'' out_cb err_cb ([], empty_Text)
       = Some (Inr 0, ([(''ok'', None)], \<lparr>plain = ''ok'', spans = []\<rparr>))
   \<and> snapshots_list
        \<lparr>store = [\<lparr>snap_id = ''s8'', snap_digest = Some ''other'', snap_metadata = []\<rparr>],
         started = [], next_id = 10, calls = 0\<rparr>
        (key_to_digest (Snapshot \<lparr>snap_id = ''s1'', snap_digest = Some ''img'', snap_metadata = []\<rparr>) ''ls'')
       = []"
proof -
  have h1: "''ls'' \<noteq> []" by simp
  have h2: "cache_check (Snapshot \<lparr>snap_id = ''s1'', snap_digest = Some ''img'', snap_metadata = []\<rparr>)
        (Some ''ls'') (InvBool True)
        \<lparr>store = [\<lparr>snap_id = ''s7'', snap_digest = Some ''imgs1ls'', snap_metadata = []\<rparr>,
                  \<lparr>snap_id = ''s8'', snap_digest = Some ''other'', snap_metadata = []\<rparr>,
                  \<lparr>snap_id = ''s9'', snap_digest = Some ''imgs1ls'', snap_metadata = []\<rparr>],
         started = [], next_id = 10, calls = 0\<rparr>
       = ([], \<lparr>store = [\<lparr>snap_id = ''s8'', snap_digest = Some ''other'', snap_metadata = []\<rparr>],
               started = [], next_id = 10, calls = 0\<rparr>)"
    by code_simp
  have h3: "Snapshot_start (Snapshot \<lparr>snap_id = ''s1'', snap_digest = Some ''img'', snap_metadata = []\<rparr>)
        \<lparr>store = [\<lparr>snap_id = ''s8'', snap_digest = Some ''other'', snap_metadata = []\<rparr>],
         started = [], next_id = 10, calls = 0\<rparr>
       = (\<lparr>inst_id = ''morphvm_10'', inst_snapshot_id = ''s1'', inst_metadata = [(''root'', ''s1'')]\<rparr>,
          \<lparr>store = [\<lparr>snap_id = ''s8'', snap_digest = Some ''other'', snap_metadata = []\<rparr>],
           started = [\<lparr>inst_id = ''morphvm_10'', inst_snapshot_id = ''s1'',
                       inst_metadata = [(''root'', ''s1'')]\<rparr>],
           next_id = 11, calls = 0\<rparr>)"
    by code_simp
  have h4: "instance_exec (scripted_remote [Out ''ok'', Exit 0])
        \<lparr>inst_id = ''morphvm_10'', inst_snapshot_id = ''s1'', inst_metadata = [(''root'', ''s1'')]\<rparr>
        ''ls'' out_cb err_cb ([], empty_Text)
       = Some (Inr 0, ([(''ok'', None)], \<lparr>plain = ''ok'', spans = []\<rparr>))"
    by code_simp
  from run_invalidate_leaves_one [OF h1 h2 h3 h4] h1 h2 h3 h4 show ?thesis by blast
qed

text \<open>
  C3, as stated, fails for the empty command: \<open>if key:\<close> is false, so nothing is looked
  up or deleted and the new snapshot gets no digest; the two snapshots stored under the
  content key of (base, empty command) are still there after the call.
\<close>

theorem run_empty_command_deletes_nothing:
  "Snapshot_run (scripted_remote [Exit 0])
      (Snapshot \<lparr>snap_id = ''s1'', snap_digest = Some ''img'', snap_metadata = []\<rparr>) [] (InvBool True)
      \<lparr>store = [\<lparr>snap_id = ''s7'', snap_digest = Some ''imgs1'', snap_metadata = []\<rparr>,
                \<lparr>snap_id = ''s9'', snap_digest = Some ''imgs1'', snap_metadata = []\<rparr>],
       started = [], next_id = 10, calls = 0\<rparr>
     = Some (Inr (Snapshot \<lparr>snap_id = ''snapshot_11'', snap_digest = None, snap_metadata = []\<rparr>),
             \<lparr>store = [\<lparr>snap_id = ''s7'', snap_digest = Some ''imgs1'', snap_metadata = []\<rparr>,
                       \<lparr>snap_id = ''s9'', snap_digest = Some ''imgs1'', snap_metadata = []\<rparr>,
                       \<lparr>snap_id = ''snapshot_11'', snap_digest = None, snap_metadata = []\<rparr>],
              started = [\<lparr>inst_id = ''morphvm_10'', inst_snapshot_id = ''s1'',
                          inst_metadata = [(''root'', ''s1'')]\<rparr>],
              next_id = 12, calls = 1\<rparr>)
   \<and> snapshots_list
        \<lparr>store = [\<lparr>snap_id = ''s7'', snap_digest = Some ''imgs1'', snap_metadata = []\<rparr>,
                  \<lparr>snap_id = ''s9'', snap_digest = Some ''imgs1'', snap_metadata = []\<rparr>,
                  \<lparr>snap_id = ''snapshot_11'', snap_digest = None, snap_metadata = []\<rparr>],
         started = [\<lparr>inst_id = ''morphvm_10'', inst_snapshot_id = ''s1'',
                     inst_metadata = [(''root'', ''s1'')]\<rparr>],
         next_id = 12, calls = 1\<rparr>
        (key_to_digest (Snapshot \<lparr>snap_id = ''s1'', snap_digest = Some ''img'', snap_metadata = []\<rparr>) [])
     = [\<lparr>snap_id = ''s7'', snap_digest = Some ''imgs1'', snap_metadata = []\<rparr>,
        \<lparr>snap_id = ''s9'', snap_digest = Some ''imgs1'', snap_metadata = []\<rparr>]"
  by code_simp

section \<open>C4: a command that exits with a non-zero code\<close>

text \<open>
  C4: when \<open>run\<close> executes the command (the cache check leaves no snapshot) and the
  remote execution gives a non-zero exit code, \<open>run\<close> raises an exception whose message
  holds the command text and the decimal digits of the exit code, and no snapshot is
  added: the store is the one the cache check left, a part of the store before the call.
\<close>

theorem run_nonzero_exit_raises:
  assumes "cache_check self (Some command) invalidate w = ([], w1)"
    and "Snapshot_start self w1 = (inst, w2)"
    and "instance_exec remote inst command out_cb err_cb ([], empty_Text)
         = Some (Inr exit_code, (buf, out_text))"
    and "exit_code \<noteq> 0"
  shows "Snapshot_run remote self command invalidate w
           = Some (Inl (Exception (failure_message command exit_code out_text)),
                   w2\<lparr>calls := Suc (calls w2)\<rparr>)
         \<and> sublist (str_int exit_code) (failure_message command exit_code out_text)
         \<and> sublist command (failure_message command exit_code out_text)
         \<and> store (w2\<lparr>calls := Suc (calls w2)\<rparr>) = store w1
         \<and> set (store w1) \<subseteq> set (store w)"
proof -
  have "store w2 = store w1" by (rule Snapshot_start_store [OF assms(2)])
  then have s: "store (w2\<lparr>calls := Suc (calls w2)\<rparr>) = store w1" by simp
  from cache_check_store [of self "Some command" invalidate w] assms(1)
  have sub: "set (store w1) \<subseteq> set (store w)" by simp
  from run_failure [OF assms] sublist_exit_code [of exit_code command out_text]
    sublist_command [of command exit_code out_text] s sub
  show ?thesis by blast
qed

theorem run_nonzero_exit_raises_witness:
  "cache_check (Snapshot \<lparr>snap_id = ''s1'', snap_digest = Some ''img'', snap_metadata = []\<rparr>)
        (Some ''false'') (InvBool False)
        \<lparr>store = [\<lparr>snap_id = ''s8'', snap_digest = Some ''other'', snap_metadata = []\<rparr>],
         started = [], next_id = 10, calls = 0\<rparr>
       = ([], \<lparr>store = [\<lparr>snap_id = ''s8'', snap_digest = Some ''other'', snap_metadata = []\<rparr>],
               started = [], next_id = 10, calls = 0\<rparr>)
   \<and> Snapshot_start (Snapshot \<lparr>snap_id = ''s1'', snap_digest = Some ''img'', snap_metadata = []\<rparr>)
        \<lparr>store = [\<lparr>snap_id = ''s8'', snap_digest = Some ''other'', snap_metadata = []\<rparr>],
         started = [], next_id = 10, calls = 0\<rparr>
       = (\<lparr>inst_id = ''morphvm_10'', inst_snapshot_id = ''s1'', inst_metadata = [(''root'', ''s1'')]\<rparr>,
          \<lparr>store = [\<lparr>snap_id = ''s8'', snap_digest = Some ''other'', snap_metadata = []\<rparr>],
           started = [\<lparr>inst_id = ''morphvm_10'', inst_snapshot_id = ''s1'',
                       inst_metadata = [(''root'', ''s1'')]\<rparr>],
           next_id = 11, calls = 0\<rparr>)
   \<and> instance_exec (scripted_remote [Exit 17])
        \<lparr>inst_id = ''morphvm_10'', inst_snapshot_id = ''s1'', inst_metadata = [(''root'', ''s1'')]\<rparr>
        ''false'' out_cb err_cb ([], empty_Text)
       = Some (Inr 17, ([], empty_Text))
   \<and> (17 :: int) \<noteq> 0
   \<and> Snapshot_run (scripted_remote [Exit 17])
        (Snapshot \<lparr>snap_id = ''s1'', snap_digest = Some ''img'', snap_metadata = []\<rparr>)
        ''false'' (InvBool False)
        \<lparr>store = [\<lparr>snap_id = ''s8'', snap_digest = Some ''other'', snap_metadata = []\<rparr>],
         started = [], next_id = 10, calls = 0\<rparr>
       = Some (Inl (Exception (failure_message ''false'' 17 empty_Text)),
               \<lparr>store = [\<lparr>snap_id = ''s8'', snap_digest = Some ''other'', snap_metadata = []\<rparr>],
                started = [\<lparr>inst_id = ''morphvm_10'', inst_snapshot_id = ''s1'',
                            inst_metadata = [(''root'', ''s1'')]\<rparr>],
                next_id = 11, calls = 1\<rparr>)
   \<and> failure_message ''false'' 17 empty_Text
       = ''Command execution failed: false exit=17 stdout= stderr=''"
proof -
  have h1: "cache_check (Snapshot \<lparr>snap_id = ''s1'', snap_digest = Some ''img'', snap_metadata = []\<rparr>)
        (Some ''false'') (InvBool False)
        \<lparr>store = [\<lparr>snap_id = ''s8'', snap_digest = Some ''other'', snap_metadata = []\<rparr>],
         started = [], next_id = 10, calls = 0\<rparr>
       = ([], \<lparr>store = [\<lparr>snap_id = ''s8'', snap_digest = Some ''other'', snap_metadata = []\<rparr>],
               started = [], next_id = 10, calls = 0\<rparr>)"
    by code_simp
  have h2: "Snapshot_start (Snapshot \<lparr>snap_id = ''s1'', snap_digest = Some ''img'', snap_metadata = []\<rparr>)
        \<lparr>store = [\<lparr>snap_id = ''s8'', snap_digest = Some ''other'', snap_metadata = []\<rparr>],
         started = [], next_id = 10, calls = 0\<rparr>
       = (\<lparr>inst_id = ''morphvm_10'', inst_snapshot_id = ''s1'', inst_metadata = [(''root'', ''s1'')]\<rparr>,
          \<lparr>store = [\<lparr>snap_id = ''s8'', snap_digest = Some ''other'', snap_metadata = []\<rparr>],
           started = [\<lparr>inst_id = ''morphvm_10'', inst_snapshot_id = ''s1'',
                       inst_metadata = [(''root'', ''s1'')]\<rparr>],
           next_id = 11, calls = 0\<rparr>)"
    by code_simp
  have h3: "instance_exec (scripted_remote [Exit 17])
        \<lparr>inst_id = ''morphvm_10'', inst_snapshot_id = ''s1'', inst_metadata = [(''root'', ''s1'')]\<rparr>
        ''false'' out_cb err_cb ([], empty_Text)
       = Some (Inr 17, ([], empty_Text))"
    by code_simp
  have h4: "(17 :: int) \<noteq> 0" by simp
  have m: "failure_message ''false'' 17 empty_Text
       = ''Command execution failed: false exit=17 stdout= stderr=''"
    by code_simp
  from run_nonzero_exit_raises [OF h1 h2 h3 h4] h1 h2 h3 h4 m show ?thesis by simp
qed

section \<open>C10: the output fields of the failure message\<close>

text \<open>
  C10: when \<open>run\<close> executes a command whose stream ends with a non-zero exit code, the
  message of the exception has the same text after \<open>stdout=\<close> and after \<open>stderr=\<close>: the
  plain text of the one buffer through which the \<open>stdout\<close> chunks and the \<open>stdin\<close>-tagged
  (error output) chunks were fed in the order they came.
\<close>

theorem run_failure_merged_output:
  assumes "cache_check self (Some command) invalidate w = ([], w1)"
    and "Snapshot_start self w1 = (inst, w2)"
    and "ssh_stream (chan_of remote) (ssh_of remote inst) command (decode_utf8 remote) 4096
         = Some (data @ [ExitCode exit_code], fin)"
    and "list_all data_message data"
    and "exit_code \<noteq> 0"
  shows "\<exists>buf out_text w'.
           feed_chunks STREAM_MAX_LINES (map styled_chunk data) ([], empty_Text) = Inr (buf, out_text)
           \<and> Snapshot_run remote self command invalidate w
             = Some (Inl (Exception (''Command execution failed: '' @ command @ '' exit=''
                                      @ str_int exit_code @ '' stdout='' @ plain out_text
                                      @ '' stderr='' @ plain out_text)), w')"
proof -
  from feed_chunks_default [of "map styled_chunk data" "([], empty_Text)"] obtain buf out_text
    where feed: "feed_chunks STREAM_MAX_LINES (map styled_chunk data) ([], empty_Text)
                 = Inr (buf, out_text)"
    by (metis surj_pair)
  from instance_exec_msgs_feed [OF assms(4) feed, of exit_code "[]" fin]
  have "instance_exec remote inst command out_cb err_cb ([], empty_Text)
        = Some (Inr exit_code, (buf, out_text))"
    by (simp add: instance_exec_def assms(3))
  from run_failure [OF assms(1,2) this assms(5)] feed show ?thesis
    unfolding failure_message_def by blast
qed

theorem run_failure_merged_output_witness:
  "cache_check (Snapshot \<lparr>snap_id = ''s1'', snap_digest = Some ''img'', snap_metadata = []\<rparr>)
        (Some ''make'') (InvBool False)
        \<lparr>store = [], started = [], next_id = 10, calls = 0\<rparr>
       = ([], \<lparr>store = [], started = [], next_id = 10, calls = 0\<rparr>)
   \<and> Snapshot_start (Snapshot \<lparr>snap_id = ''s1'', snap_digest = Some ''img'', snap_metadata = []\<rparr>)
        \<lparr>store = [], started = [], next_id = 10, calls = 0\<rparr>
       = (\<lparr>inst_id = ''morphvm_10'', inst_snapshot_id = ''s1'', inst_metadata = [(''root'', ''s1'')]\<rparr>,
          \<lparr>store = [],
           started = [\<lparr>inst_id = ''morphvm_10'', inst_snapshot_id = ''s1'',
                       inst_metadata = [(''root'', ''s1'')]\<rparr>],
           next_id = 11, calls = 0\<rparr>)
   \<and> ssh_stream (chan_of (scripted_remote [Out ''building'', Err ''no such file'', Exit 2]))
        (ssh_of (scripted_remote [Out ''building'', Err ''no such file'', Exit 2])
           \<lparr>inst_id = ''morphvm_10'', inst_snapshot_id = ''s1'', inst_metadata = [(''root'', ''s1'')]\<rparr>)
        ''make'' (decode_utf8 (scripted_remote [Out ''building'', Err ''no such file'', Exit 2])) 4096
       = Some ([Stdout ''building'', Stdin ''no such file''] @ [ExitCode 2], None)
   \<and> list_all data_message [Stdout ''building'', Stdin ''no such file'']
   \<and> (2 :: int) \<noteq> 0
   \<and> Snapshot_run (scripted_remote [Out ''building'', Err ''no such file'', Exit 2])
        (Snapshot \<lparr>snap_id = ''s1'', snap_digest = Some ''img'', snap_metadata = []\<rparr>)
        ''make'' (InvBool False) \<lparr>store = [], started = [], next_id = 10, calls = 0\<rparr>
       = Some (Inl (Exception
           ''Command execution failed: make exit=2 stdout=buildingno such file stderr=buildingno such file''),
               \<lparr>store = [],
                started = [\<lparr>inst_id = ''morphvm_10'', inst_snapshot_id = ''s1'',
                            inst_metadata = [(''root'', ''s1'')]\<rparr>],
                next_id = 11, calls = 1\<rparr>)"
proof -
  have h1: "cache_check (Snapshot \<lparr>snap_id = ''s1'', snap_digest = Some ''img'', snap_metadata = []\<rparr>)
        (Some ''make'') (InvBool False)
        \<lparr>store = [], started = [], next_id = 10, calls = 0\<rparr>
       = ([], \<lparr>store = [], started = [], next_id = 10, calls = 0\<rparr>)"
    by code_simp
  have h2: "Snapshot_start (Snapshot \<lparr>snap_id = ''s1'', snap_digest = Some ''img'', snap_metadata = []\<rparr>)
        \<lparr>store = [], started = [], next_id = 10, calls = 0\<rparr>
       = (\<lparr>inst_id = ''morphvm_10'', inst_snapshot_id = ''s1'', inst_metadata = [(''root'', ''s1'')]\<rparr>,
          \<lparr>store = [],
           started = [\<lparr>inst_id = ''morphvm_10'', inst_snapshot_id = ''s1'',
                       inst_metadata = [(''root'', ''s1'')]\<rparr>],
           next_id = 11, calls = 0\<rparr>)"
    by code_simp
  have h3: "ssh_stream (chan_of (scripted_remote [Out ''building'', Err ''no such file'', Exit 2]))
        (ssh_of (scripted_remote [Out ''building'', Err ''no such file'', Exit 2])
           \<lparr>inst_id = ''morphvm_10'', inst_snapshot_id = ''s1'', inst_metadata = [(''root'', ''s1'')]\<rparr>)
        ''make'' (decode_utf8 (scripted_remote [Out ''building'', Err ''no such file'', Exit 2])) 4096
       = Some ([Stdout ''building'', Stdin ''no such file''] @ [ExitCode 2], None)"
    by code_simp
  have h4: "list_all data_message [Stdout ''building'', Stdin ''no such file'']"
    by (simp add: data_message_def)
  have h5: "(2 :: int) \<noteq> 0" by simp
  have r: "Snapshot_run (scripted_remote [Out ''building'', Err ''no such file'', Exit 2])
        (Snapshot \<lparr>snap_id = ''s1'', snap_digest = Some ''img'', snap_metadata = []\<rparr>)
        ''make'' (InvBool False) \<lparr>store = [], started = [], next_id = 10, calls = 0\<rparr>
       = Some (Inl (Exception
           ''Command execution failed: make exit=2 stdout=buildingno such file stderr=buildingno such file''),
               \<lparr>store = [],
                started = [\<lparr>inst_id = ''morphvm_10'', inst_snapshot_id = ''s1'',
                            inst_metadata = [(''root'', ''s1'')]\<rparr>],
                next_id = 11, calls = 1\<rparr>)"
    by code_simp
  from run_failure_merged_output [OF h1 h2 h3 h4 h5] h1 h2 h3 h4 h5 r show ?thesis by blast
qed

section \<open>C7: a connection lost before the exit status\<close>





section \<open>Paths: lemmas\<close>

lemma split_sep_nonempty: "split_sep s \<noteq> []"
  by (induction s) (auto split: list.splits)

lemma split_sep_no_sep: "x \<in> set (split_sep s) \<Longrightarrow> CHR ''/'' \<notin> set x"
proof (induction s arbitrary: x)
  case Nil
  then show ?case by simp
next
  case (Cons c cs)
  show ?case
  proof (cases "c = CHR ''/''")
    case True
    with Cons show ?thesis by auto
  next
    case False
    obtain p ps where sp: "split_sep cs = p # ps"
      using split_sep_nonempty [of cs] by (cases "split_sep cs") auto
    with Cons False show ?thesis by auto
  qed
qed

lemma split_sep_plain: "CHR ''/'' \<notin> set x \<Longrightarrow> split_sep x = [x]"
  by (induction x) auto

lemma split_sep_append:
  "CHR ''/'' \<notin> set x \<Longrightarrow> split_sep (x @ CHR ''/'' # rest) = x # split_sep rest"
  by (induction x) auto

lemma str_join_Cons_sep:
  "str_join sep (x # xs) = (if xs = [] then x else x @ sep @ str_join sep xs)"
  by (cases xs) auto

lemma split_sep_join:
  "ps \<noteq> [] \<Longrightarrow> list_all part_ok ps \<Longrightarrow> split_sep (str_join ''/'' ps) = ps"
proof (induction ps)
  case Nil
  then show ?case by simp
next
  case (Cons x xs)
  then have x: "CHR ''/'' \<notin> set x" by (simp add: part_ok_def)
  show ?case
  proof (cases "xs = []")
    case True
    with x show ?thesis by (simp add: split_sep_plain)
  next
    case False
    with Cons have "split_sep (str_join ''/'' xs) = xs" by simp
    with False x show ?thesis
      by (simp add: str_join_Cons_sep split_sep_append)
  qed
qed

lemma path_parts_ok: "list_all part_ok (path_parts p)"
  by (auto simp: path_parts_def part_ok_def list_all_iff dest: split_sep_no_sep)

lemma filter_parts_id:
  "list_all part_ok ps \<Longrightarrow> filter (\<lambda>x. x \<noteq> [] \<and> x \<noteq> ''.'') ps = ps"
  by (induction ps) (auto simp: part_ok_def)

lemma str_join_head_char:
  "ps \<noteq> [] \<Longrightarrow> list_all part_ok ps \<Longrightarrow>
   \<exists>c rest. str_join ''/'' ps = c # rest \<and> c \<noteq> CHR ''/''"
proof (cases ps)
  case Nil
  then show "ps \<noteq> [] \<Longrightarrow> ?thesis" by simp
next
  case (Cons x xs)
  assume "list_all part_ok ps"
  with Cons obtain c r where x: "x = c # r" and c: "c \<noteq> CHR ''/''"
    by (cases x) (auto simp: part_ok_def)
  show ?thesis
  proof (cases xs)
    case Nil
    with Cons x c show ?thesis by simp
  next
    case (Cons y ys)
    with \<open>ps = x # xs\<close> x c show ?thesis by simp
  qed
qed

lemma path_root_cases: "path_root p = [] \<or> path_root p = ''/'' \<or> path_root p = ''//''"
  by (simp add: path_root_def)

lemma path_str_root_parts:
  assumes r: "r = [] \<or> r = ''/'' \<or> r = ''//''" and ps: "list_all part_ok ps"
  shows "path_root (path_str r ps) = r \<and> path_parts (path_str r ps) = ps"
proof (cases "ps = []")
  case True
  with r show ?thesis
    by (auto simp: path_str_def path_root_def path_parts_def)
next
  case False
  from str_join_head_char [OF False ps] obtain c rest
    where j: "str_join ''/'' ps = c # rest" and c: "c \<noteq> CHR ''/''" by blast
  have root: "path_root (path_str r ps) = r"
    using r False j c by (auto simp: path_str_def path_root_def)
  have "drop (length r) (path_str r ps) = str_join ''/'' ps"
    using False by (simp add: path_str_def)
  with root have "path_parts (path_str r ps) = filter (\<lambda>x. x \<noteq> [] \<and> x \<noteq> ''.'') (split_sep (str_join ''/'' ps))"
    by (simp add: path_parts_def)
  also have "\<dots> = ps"
    by (simp add: split_sep_join [OF False ps] filter_parts_id [OF ps])
  finally show ?thesis using root by simp
qed

lemma list_all_butlast: "list_all P xs \<Longrightarrow> list_all P (butlast xs)"
  by (auto simp: list_all_iff dest: in_set_butlastD)

lemma path_parent_parts: "path_parts (path_parent p) = butlast (path_parts p)"
  unfolding path_parent_def
  using path_str_root_parts [OF path_root_cases list_all_butlast [OF path_parts_ok]] by blast

lemma path_parent_root: "path_root (path_parent p) = path_root p"
  unfolding path_parent_def
  using path_str_root_parts [OF path_root_cases list_all_butlast [OF path_parts_ok]] by blast

lemma path_parent_normal: "path_normal (path_parent p)"
  unfolding path_normal_def path_parent_parts path_parent_root
  by (simp add: path_parent_def)

lemma path_parent_measure:
  assumes "path_parent p \<noteq> p"
  shows "2 * length (path_parts (path_parent p)) + (if path_normal (path_parent p) then 0 else 1)
         < 2 * length (path_parts p) + (if path_normal p then 0 else (1::nat))"
proof (cases "path_normal p")
  case True
  have "path_parts p \<noteq> []"
  proof
    assume "path_parts p = []"
    with True have "path_parent p = p" by (simp add: path_parent_def path_normal_def)
    with assms show False by simp
  qed
  then have "length (butlast (path_parts p)) < length (path_parts p)" by simp
  then show ?thesis by (simp add: path_parent_parts path_parent_normal True)
next
  case False
  have "length (butlast (path_parts p)) \<le> length (path_parts p)" by simp
  then show ?thesis by (simp add: path_parent_parts path_parent_normal False)
qed

termination ensure_remote_dir
  by (relation "measure (\<lambda>(p, fs). 2 * length (path_parts p) + (if path_normal p then 0 else 1))")
     (auto simp: path_parent_measure)

lemma ensure_remote_dir_adds_dirs:
  "ensure_remote_dir p fs q = fs q \<or> ensure_remote_dir p fs q = Some RDir"
proof (induction p fs rule: ensure_remote_dir.induct)
  case (1 remote_path fs)
  show ?case
  proof (cases "fs remote_path")
    case (Some node)
    then show ?thesis by simp
  next
    case None
    show ?thesis
    proof (cases "path_parent remote_path \<noteq> remote_path \<and> path_parent remote_path \<noteq> ''/''")
      case True
      with 1 [OF None] None show ?thesis
        by (auto simp: sftp_mkdir_def)
    next
      case False
      with None show ?thesis by (auto simp: sftp_mkdir_def)
    qed
  qed
qed

lemma copy_file_target:
  "copy_file content mode remote_file fs remote_file = Some (RFile content (Some mode))"
  by (simp add: copy_file_def sftp_chmod_def sftp_put_def)

lemma copy_file_elsewhere:
  assumes "q \<noteq> remote_file"
  shows "copy_file content mode remote_file fs q = fs q
         \<or> copy_file content mode remote_file fs q = Some RDir"
  using assms ensure_remote_dir_adds_dirs [of "path_parent remote_file" fs q]
  by (auto simp: copy_file_def sftp_chmod_def sftp_put_def)

lemma split_sep_tail:
  "CHR ''/'' \<notin> set b \<Longrightarrow> \<exists>F. F \<noteq> [] \<and> split_sep (a @ CHR ''/'' # b) = F @ [b]"
proof (induction a)
  case Nil
  then have "split_sep ([] @ CHR ''/'' # b) = [[]] @ [b]" by (simp add: split_sep_plain)
  then show ?case by blast
next
  case (Cons c a)
  then obtain f fs where F: "split_sep (a @ CHR ''/'' # b) = (f # fs) @ [b]"
    by (metis neq_Nil_conv)
  show ?case
  proof (cases "c = CHR ''/''")
    case True
    with F have "split_sep ((c # a) @ CHR ''/'' # b) = ([] # f # fs) @ [b]" by simp
    then show ?thesis by blast
  next
    case False
    with F have "split_sep ((c # a) @ CHR ''/'' # b) = ((c # f) # fs) @ [b]" by simp
    then show ?thesis by blast
  qed
qed

lemma path_name_plain:
  assumes "part_ok name"
  shows "path_name name = name"
proof -
  from assms obtain c r where n: "name = c # r" and c: "c \<noteq> CHR ''/''"
    by (cases name) (auto simp: part_ok_def)
  then have "path_root name = []" by (simp add: path_root_def)
  then have "path_parts name = [name]"
    using assms by (simp add: path_parts_def split_sep_plain part_ok_def)
  then show ?thesis by (simp add: path_name_def)
qed

lemma path_name_after_sep:
  assumes "part_ok name"
  shows "path_name (pre @ CHR ''/'' # name) = name"
proof -
  let ?p = "pre @ CHR ''/'' # name"
  from assms have ns: "CHR ''/'' \<notin> set name" and ok: "name \<noteq> [] \<and> name \<noteq> ''.''"
    by (simp_all add: part_ok_def)
  from assms obtain c r where n: "name = c # r" and c: "c \<noteq> CHR ''/''"
    by (cases name) (auto simp: part_ok_def)
  have k: "length (path_root ?p) \<le> length pre + 1"
  proof (cases pre)
    case Nil
    with n c show ?thesis by (simp add: path_root_def)
  next
    case (Cons x xs)
    have "length (path_root ?p) \<le> 2" by (simp add: path_root_def)
    with Cons show ?thesis by simp
  qed
  have "\<exists>F. split_sep (drop (length (path_root ?p)) ?p) = F @ [name]"
  proof (cases "length (path_root ?p) \<le> length pre")
    case True
    then have "drop (length (path_root ?p)) ?p
               = drop (length (path_root ?p)) pre @ CHR ''/'' # name" by simp
    with split_sep_tail [OF ns, of "drop (length (path_root ?p)) pre"] show ?thesis by auto
  next
    case False
    with k have "length (path_root ?p) = length pre + 1" by simp
    then have "drop (length (path_root ?p)) ?p = name" by simp
    then show ?thesis by (simp add: split_sep_plain [OF ns])
  qed
  then obtain F where "split_sep (drop (length (path_root ?p)) ?p) = F @ [name]" by blast
  then have "path_parts ?p = filter (\<lambda>x. x \<noteq> [] \<and> x \<noteq> ''.'') F @ [name]"
    using ok by (simp add: path_parts_def)
  then show ?thesis by (simp add: path_name_def)
qed

lemma path_name_of_file:
  assumes "part_ok name" and "src = name \<or> src = dir @ ''/'' @ name"
  shows "path_name src = name"
  using assms path_name_plain [OF assms(1)] path_name_after_sep [OF assms(1), of dir]
  by auto

lemma rstrip_sep_trailing:
  assumes "d = [] \<or> last d \<noteq> CHR ''/''"
  shows "rstrip_sep (d @ replicate n (CHR ''/'')) = d"
proof -
  have a: "dropWhile (\<lambda>c. c = CHR ''/'') (replicate n (CHR ''/'') @ rev d) = rev d"
    using assms by (cases "rev d") (auto simp: dropWhile_append3 last_rev)
  show ?thesis by (simp add: rstrip_sep_def a)
qed

lemma endswith_sep_trailing: "endswith_sep (d @ replicate (Suc n) (CHR ''/''))"
  by (simp add: endswith_sep_def)

lemma not_endswith_sep: "dest = [] \<or> last dest \<noteq> CHR ''/'' \<Longrightarrow> \<not> endswith_sep dest"
  by (auto simp: endswith_sep_def)

section \<open>C8: where a copied file lands\<close>

text \<open>
  C8: for a source that is a local file with file name \<open>name\<close> (the source path is \<open>name\<close>
  or ends with a separator and \<open>name\<close>), \<open>copy_\<close> puts the file: when \<open>dest\<close> ends with
  separators, at \<open>dest\<close> without them, a separator and \<open>name\<close>; otherwise, when \<open>dest\<close>
  exists remotely and is a directory, at \<open>dest\<close>, a separator and \<open>name\<close>; otherwise,
  when \<open>dest\<close> does not exist remotely, at \<open>dest\<close> itself. After the copy the file (content
  and permission bits) is at that path, and any other path is as before or is a
  directory that was created.
\<close>

theorem copy_file_lands:
  assumes "part_ok name" and "src = name \<or> src = dir @ ''/'' @ name"
  shows "(dest = d @ replicate (Suc n) (CHR ''/'') \<and> (d = [] \<or> last d \<noteq> CHR ''/'') \<longrightarrow>
            execute_copy_file (LocalFile content mode) src dest fs
              = Inr (copy_file content mode (d @ ''/'' @ name) fs))
         \<and> ((dest = [] \<or> last dest \<noteq> CHR ''/'') \<and> fs dest = Some RDir \<longrightarrow>
            execute_copy_file (LocalFile content mode) src dest fs
              = Inr (copy_file content mode (dest @ ''/'' @ name) fs))
         \<and> ((dest = [] \<or> last dest \<noteq> CHR ''/'') \<and> fs dest = None \<longrightarrow>
            execute_copy_file (LocalFile content mode) src dest fs
              = Inr (copy_file content mode dest fs))
         \<and> copy_file content mode remote_file fs remote_file = Some (RFile content (Some mode))
         \<and> (q \<noteq> remote_file \<longrightarrow>
              copy_file content mode remote_file fs q = fs q
              \<or> copy_file content mode remote_file fs q = Some RDir)"
proof (intro conjI impI)
  note name = path_name_of_file [OF assms]
  {
    assume a: "dest = d @ replicate (Suc n) (CHR ''/'') \<and> (d = [] \<or> last d \<noteq> CHR ''/'')"
    then have "endswith_sep dest" and "rstrip_sep dest = d"
      using endswith_sep_trailing [of d n] rstrip_sep_trailing [of d "Suc n"] by simp_all
    then show "execute_copy_file (LocalFile content mode) src dest fs
              = Inr (copy_file content mode (d @ ''/'' @ name) fs)"
      by (simp add: execute_copy_file_def remote_file_for_def name)
  }
  {
    assume a: "(dest = [] \<or> last dest \<noteq> CHR ''/'') \<and> fs dest = Some RDir"
    then have "\<not> endswith_sep dest" using not_endswith_sep by blast
    with a show "execute_copy_file (LocalFile content mode) src dest fs
              = Inr (copy_file content mode (dest @ ''/'' @ name) fs)"
      by (simp add: execute_copy_file_def remote_file_for_def name)
  }
  {
    assume a: "(dest = [] \<or> last dest \<noteq> CHR ''/'') \<and> fs dest = None"
    then have "\<not> endswith_sep dest" using not_endswith_sep by blast
    with a show "execute_copy_file (LocalFile content mode) src dest fs
              = Inr (copy_file content mode dest fs)"
      by (simp add: execute_copy_file_def remote_file_for_def)
  }
  show "copy_file content mode remote_file fs remote_file = Some (RFile content (Some mode))"
    by (rule copy_file_target)
  {
    assume "q \<noteq> remote_file"
    then show "copy_file content mode remote_file fs q = fs q
              \<or> copy_file content mode remote_file fs q = Some RDir"
      by (rule copy_file_elsewhere)
  }
qed

theorem copy_file_lands_witness:
  "part_ok ''a.txt''
   \<and> ''sub/a.txt'' = ''sub'' @ ''/'' @ ''a.txt''
   \<and> ''dest/'' = ''dest'' @ replicate (Suc 0) (CHR ''/'') \<and> last ''dest'' \<noteq> CHR ''/''
   \<and> execute_copy_file (LocalFile ''hello'' 33188) ''sub/a.txt'' ''dest/'' Map.empty
       = Inr (copy_file ''hello'' 33188 ''dest/a.txt'' Map.empty)
   \<and> [''dest'' \<mapsto> RDir] ''dest'' = Some RDir
   \<and> execute_copy_file (LocalFile ''hello'' 33188) ''sub/a.txt'' ''dest'' [''dest'' \<mapsto> RDir]
       = Inr (copy_file ''hello'' 33188 ''dest/a.txt'' [''dest'' \<mapsto> RDir])
   \<and> (Map.empty :: remote_fs) ''dest'' = None
   \<and> execute_copy_file (LocalFile ''hello'' 33188) ''sub/a.txt'' ''dest'' Map.empty
       = Inr (copy_file ''hello'' 33188 ''dest'' Map.empty)
   \<and> copy_file ''hello'' 33188 ''dest/a.txt'' Map.empty ''dest/a.txt''
       = Some (RFile ''hello'' (Some 33188))
   \<and> ''dest'' \<noteq> ''dest/a.txt''
   \<and> copy_file ''hello'' 33188 ''dest/a.txt'' Map.empty ''dest'' = Some RDir"
proof -
  have h1: "part_ok ''a.txt''" by (simp add: part_ok_def)
  have h2: "''sub/a.txt'' = ''a.txt'' \<or> ''sub/a.txt'' = ''sub'' @ ''/'' @ ''a.txt''" by simp
  have d: "copy_file ''hello'' 33188 ''dest/a.txt'' Map.empty ''dest'' = Some RDir"
    by code_simp
  from copy_file_lands [OF h1 h2, of "''dest/''" "''dest''" 0 "''hello''" 33188 Map.empty
      "''dest/a.txt''" "''dest''"]
    copy_file_lands [OF h1 h2, of "''dest''" "''dest''" 0 "''hello''" 33188 "[''dest'' \<mapsto> RDir]"
      "''dest/a.txt''" "''dest''"]
    copy_file_lands [OF h1 h2, of "''dest''" "''dest''" 0 "''hello''" 33188 Map.empty
      "''dest/a.txt''" "''dest''"]
    h1 d
  show ?thesis by simp
qed

section \<open>C9: the verifier without a current agent\<close>

lemma verify_loop_called:
  "fst (snd (snd (verify_loop funcs inst (ok, errs, called, vp)))) = called @ map fn_name funcs"
  by (induction funcs arbitrary: ok errs called vp) (auto split: option.splits)

lemma verifier_with_agent_calls_all:
  "verify_funcs \<noteq> [] \<Longrightarrow>
   fst (snd (verifier verify_funcs (Some agent) inst)) = map fn_name verify_funcs"
proof -
  assume ne: "verify_funcs \<noteq> []"
  obtain ok errs called vp
    where l: "verify_loop verify_funcs inst (True, [], [], VerificationPanel_init verify_funcs)
              = (ok, errs, called, vp)"
    by (metis surj_pair)
  from verify_loop_called [of verify_funcs inst True "[]" "[]" "VerificationPanel_init verify_funcs"] l
  have "called = map fn_name verify_funcs" by simp
  with ne l show ?thesis by (simp add: verifier_def)
qed

text \<open>
  C9: with a non-empty list of verification functions and no current agent, \<open>verifier\<close>
  returns \<open>True\<close> and has called none of the functions.
\<close>

theorem verifier_without_agent:
  assumes "verify_funcs \<noteq> []"
  shows "verifier verify_funcs None inst = (True, [], None)"
  using assms by (simp add: verifier_def)

theorem verifier_without_agent_witness:
  "[failing_check] \<noteq> []
   \<and> verifier [failing_check] None \<lparr>inst_id = ''morphvm_1'', inst_snapshot_id = ''s1'', inst_metadata = []\<rparr>
       = (True, [], None)
   \<and> fn_run failing_check \<lparr>inst_id = ''morphvm_1'', inst_snapshot_id = ''s1'', inst_metadata = []\<rparr>
       = Some ''port 80 closed''"
proof -
  have h: "[failing_check] \<noteq> []" by simp
  from verifier_without_agent [OF h] h show ?thesis by (simp add: failing_check_def)
qed

end

